theory Spec2Isabelle
  imports Main "HOL-Library.Word" "HOL-Library.Stream" "HOL-Library.Sublist"
begin

section \<open>Python values used by ftclient.py\<close>

text \<open>
  A Python \<open>str\<close> is a sequence of Unicode code points and \<open>len\<close> counts code points, so
  text is a list of code points. A \<open>bytes\<close> object is a list of 8-bit words. String
  literals of the source are written with \<open>lit\<close>.
\<close>

type_synonym byte = "8 word"
type_synonym str = "nat list"

definition lit :: "string \<Rightarrow> str" where
  "lit s = map of_char s"

text \<open>
  The exceptions the program can end with. \<open>sys.exit(n)\<close> raises \<open>SystemExit\<close>, which
  nothing in the program catches; the others are raised by the Python library calls the
  program makes and are not caught either.
\<close>

datatype exn =
    SystemExit int
  | IndexError
  | ValueError
  | OSError
  | UnicodeDecodeError
  | UnicodeEncodeError
  | EOFError

text \<open>The process exit status: the argument of \<open>sys.exit\<close>, or 1 after a traceback.\<close>

fun exit_code :: "exn \<Rightarrow> int" where
  "exit_code (SystemExit n) = n"
| "exit_code _ = 1"

subsection \<open>\<open>str(n)\<close> for an integer\<close>

function digits :: "nat \<Rightarrow> str" where
  "digits n = (if n < 10 then [48 + n] else digits (n div 10) @ [48 + n mod 10])"
  by pat_completeness auto
termination
  by (relation "measure id") auto

declare digits.simps [simp del]

definition str_of_int :: "int \<Rightarrow> str" where
  "str_of_int i = (if i < 0 then 45 # digits (nat (- i)) else digits (nat i))"

subsection \<open>The substring test \<open>sub in s\<close> and \<open>s.strip(chars)\<close>\<close>

fun contains :: "'a list \<Rightarrow> 'a list \<Rightarrow> bool" where
  "contains sub [] = (sub = [])"
| "contains sub (x # xs) = (prefix sub (x # xs) \<or> contains sub xs)"

definition strip :: "str \<Rightarrow> str \<Rightarrow> str" where
  "strip chars s =
     rev (dropWhile (\<lambda>c. c \<in> set chars) (rev (dropWhile (\<lambda>c. c \<in> set chars) s)))"

subsection \<open>\<open>str.lower()\<close>\<close>

text \<open>
  The ASCII letters are lowered here; the lower-case mapping of the code points from 128
  on is Unicode's table, which is not part of the program and is taken as the parameter
  \<open>tbl\<close>.
\<close>

definition lower :: "(nat \<Rightarrow> str) \<Rightarrow> str \<Rightarrow> str" where
  "lower tbl s =
     concat (map (\<lambda>c. if 65 \<le> c \<and> c \<le> 90 then [c + 32] else if c < 128 then [c] else tbl c) s)"

subsection \<open>UTF-8\<close>

text \<open>
  \<open>data.decode("utf-8")\<close> with the default strict error handling: the well-formed byte
  sequences of the Unicode standard decode, everything else (a stray continuation byte,
  an overlong form, a surrogate, a value above U+10FFFF, a sequence cut short) raises
  \<open>UnicodeDecodeError\<close>.
\<close>

definition is_cont :: "nat \<Rightarrow> bool" where
  "is_cont b = (128 \<le> b \<and> b \<le> 191)"

definition second_ok :: "nat \<Rightarrow> nat \<Rightarrow> bool" where
  "second_ok lead b =
     (if lead = 224 then 160 \<le> b \<and> b \<le> 191
      else if lead = 237 then 128 \<le> b \<and> b \<le> 159
      else if lead = 240 then 144 \<le> b \<and> b \<le> 191
      else if lead = 244 then 128 \<le> b \<and> b \<le> 143
      else is_cont b)"

fun decode_utf8 :: "nat list \<Rightarrow> str option" where
  "decode_utf8 [] = Some []"
| "decode_utf8 (n # bs) =
     (if n < 128 then map_option ((#) n) (decode_utf8 bs)
      else if 194 \<le> n \<and> n \<le> 223 then
        (case bs of
           c1 # r \<Rightarrow>
             if is_cont c1
             then map_option ((#) ((n - 192) * 64 + (c1 - 128))) (decode_utf8 r)
             else None
         | _ \<Rightarrow> None)
      else if 224 \<le> n \<and> n \<le> 239 then
        (case bs of
           c1 # c2 # r \<Rightarrow>
             if second_ok n c1 \<and> is_cont c2
             then map_option ((#) ((n - 224) * 4096 + (c1 - 128) * 64 + (c2 - 128)))
                    (decode_utf8 r)
             else None
         | _ \<Rightarrow> None)
      else if 240 \<le> n \<and> n \<le> 244 then
        (case bs of
           c1 # c2 # c3 # r \<Rightarrow>
             if second_ok n c1 \<and> is_cont c2 \<and> is_cont c3
             then map_option
                    ((#) ((n - 240) * 262144 + (c1 - 128) * 4096 + (c2 - 128) * 64 + (c3 - 128)))
                    (decode_utf8 r)
             else None
         | _ \<Rightarrow> None)
      else None)"

text \<open>
  \<open>bytes(s, "utf8")\<close>: a surrogate code point (or a value that is no code point) raises
  \<open>UnicodeEncodeError\<close>.
\<close>

definition encode_cp :: "nat \<Rightarrow> nat list option" where
  "encode_cp c =
     (if c < 128 then Some [c]
      else if c < 2048 then Some [192 + c div 64, 128 + c mod 64]
      else if 55296 \<le> c \<and> c \<le> 57343 then None
      else if c < 65536 then Some [224 + c div 4096, 128 + c div 64 mod 64, 128 + c mod 64]
      else if c < 1114112 then
        Some [240 + c div 262144, 128 + c div 4096 mod 64, 128 + c div 64 mod 64, 128 + c mod 64]
      else None)"

fun encode_utf8 :: "str \<Rightarrow> nat list option" where
  "encode_utf8 [] = Some []"
| "encode_utf8 (c # cs) =
     (case encode_cp c of
        None \<Rightarrow> None
      | Some bs \<Rightarrow> map_option ((@) bs) (encode_utf8 cs))"

section \<open>The process and its environment\<close>

text \<open>
  The three sockets of a run: \<open>s2\<close>, the listener on the data port; \<open>s\<close>, the control
  connection; \<open>dpConnection\<close>, the data connection the listener accepts.
\<close>

datatype sock = Listener | Control | Data

datatype sockstate = Absent | Open | Closed

text \<open>What the process does to the outside, in the order it does it.\<close>

datatype event =
    Print str
  | Input str
  | Sleep
  | Bind int
  | Listen
  | Connect str int
  | Send "nat list"
  | Recv sock
  | Accept
  | Close sock
  | OpenW str
  | Write str "byte list"

text \<open>
  The world of one run. The first group is what the run is given: the command line; the
  two Python library functions whose tables are not part of the program (\<open>int\<close> on a
  string, \<open>None\<close> where it raises \<open>ValueError\<close>, and the lower-case table from code point
  128 on); whether the data port can be bound, whether the server accepts the control
  connection, whether it ever connects back to the data port; what each connection
  delivers (one element for every arrival, \<open>[]\<close> once the peer has closed); the lines the
  user types; which names can be opened for writing. The second group changes as the
  program runs: the regular files of the working directory, the state of the three
  sockets, and the trace of events.
\<close>

record world =
  argv :: "str list"
  py_int :: "str \<Rightarrow> int option"
  lower_tbl :: "nat \<Rightarrow> str"
  bind_ok :: bool
  connect_ok :: bool
  connects_back :: bool
  control_in :: "byte list stream"
  data_in :: "byte list stream"
  stdin :: "str list"
  openable :: "str \<Rightarrow> bool"
  files :: "str \<rightharpoonup> byte list"
  listener :: sockstate
  control :: sockstate
  dataconn :: sockstate
  trace :: "event list"

text \<open>
  A piece of program takes the world and returns, with the world it leaves, either a
  value or the exception it raised; \<open>None\<close> is a piece of program that never returns.
\<close>

type_synonym 'a prog = "world \<Rightarrow> ((exn + 'a) \<times> world) option"

definition ret :: "'a \<Rightarrow> 'a prog" where
  "ret x w = Some (Inr x, w)"

definition raise :: "exn \<Rightarrow> 'a prog" where
  "raise e w = Some (Inl e, w)"

definition seq :: "'a prog \<Rightarrow> ('a \<Rightarrow> 'b prog) \<Rightarrow> 'b prog" where
  "seq m f w =
     (case m w of
        None \<Rightarrow> None
      | Some (Inl e, w') \<Rightarrow> Some (Inl e, w')
      | Some (Inr x, w') \<Rightarrow> f x w')"

definition emit :: "event \<Rightarrow> unit prog" where
  "emit e w = Some (Inr (), w\<lparr>trace := trace w @ [e]\<rparr>)"

subsection \<open>Library calls\<close>

definition getitem :: "'a list \<Rightarrow> nat \<Rightarrow> 'a prog" where
  "getitem xs i = (if i < length xs then ret (xs ! i) else raise IndexError)"

definition sys_argv :: "nat \<Rightarrow> str prog" where
  "sys_argv i w = getitem (argv w) i w"

definition int_of_str :: "str \<Rightarrow> int prog" where
  "int_of_str s w = (case py_int w s of None \<Rightarrow> raise ValueError w | Some n \<Rightarrow> ret n w)"

definition print :: "str \<Rightarrow> unit prog" where
  "print s = emit (Print s)"

definition sys_exit :: "int \<Rightarrow> 'a prog" where
  "sys_exit n = raise (SystemExit n)"

definition sleep :: "unit prog" where
  "sleep = emit Sleep"

definition input :: "str \<Rightarrow> str prog" where
  "input prompt w =
     (case stdin w of
        [] \<Rightarrow> Some (Inl EOFError, w\<lparr>trace := trace w @ [Input prompt]\<rparr>)
      | l # ls \<Rightarrow> Some (Inr l, w\<lparr>stdin := ls, trace := trace w @ [Input prompt]\<rparr>))"

definition isfile :: "str \<Rightarrow> bool prog" where
  "isfile name w = ret (files w name \<noteq> None) w"

definition open_wb :: "str \<Rightarrow> unit prog" where
  "open_wb name w =
     (if openable w name
      then Some (Inr (), w\<lparr>files := (files w)(name \<mapsto> []), trace := trace w @ [OpenW name]\<rparr>)
      else Some (Inl OSError, w))"

definition f_write :: "str \<Rightarrow> byte list \<Rightarrow> unit prog" where
  "f_write name d w =
     Some (Inr (), w\<lparr>files := (files w)(name \<mapsto> (case files w name of None \<Rightarrow> d | Some old \<Rightarrow> old @ d)),
                     trace := trace w @ [Write name d]\<rparr>)"

definition decode :: "byte list \<Rightarrow> str prog" where
  "decode data =
     (case decode_utf8 (map unat data) of None \<Rightarrow> raise UnicodeDecodeError | Some s \<Rightarrow> ret s)"

definition encode :: "str \<Rightarrow> nat list prog" where
  "encode s = (case encode_utf8 s of None \<Rightarrow> raise UnicodeEncodeError | Some bs \<Rightarrow> ret bs)"

subsection \<open>Sockets\<close>

definition state_of :: "sock \<Rightarrow> world \<Rightarrow> sockstate" where
  "state_of c w = (case c of Listener \<Rightarrow> listener w | Control \<Rightarrow> control w | Data \<Rightarrow> dataconn w)"

definition set_state :: "sock \<Rightarrow> sockstate \<Rightarrow> world \<Rightarrow> world" where
  "set_state c st w =
     (case c of
        Listener \<Rightarrow> w\<lparr>listener := st\<rparr>
      | Control \<Rightarrow> w\<lparr>control := st\<rparr>
      | Data \<Rightarrow> w\<lparr>dataconn := st\<rparr>)"

definition incoming :: "sock \<Rightarrow> world \<Rightarrow> byte list stream" where
  "incoming c w = (case c of Data \<Rightarrow> data_in w | _ \<Rightarrow> control_in w)"

definition set_incoming :: "sock \<Rightarrow> byte list stream \<Rightarrow> world \<Rightarrow> world" where
  "set_incoming c s w = (case c of Data \<Rightarrow> w\<lparr>data_in := s\<rparr> | _ \<Rightarrow> w\<lparr>control_in := s\<rparr>)"

text \<open>
  \<open>c.recv(n)\<close> returns at most \<open>n\<close> bytes of what has arrived and leaves the rest for the
  next call; on a socket that is not an open connection it raises \<open>OSError\<close>.
\<close>

definition recv :: "sock \<Rightarrow> nat \<Rightarrow> byte list prog" where
  "recv c n w =
     (if c = Listener \<or> state_of c w \<noteq> Open then Some (Inl OSError, w)
      else
        (let s = incoming c w;
             rest = (if length (shd s) \<le> n then stl s else drop n (shd s) ## stl s)
         in Some (Inr (take n (shd s)), set_incoming c rest (w\<lparr>trace := trace w @ [Recv c]\<rparr>))))"

definition send :: "sock \<Rightarrow> nat list \<Rightarrow> unit prog" where
  "send c bs w =
     (if state_of c w \<noteq> Open then Some (Inl OSError, w) else emit (Send bs) w)"

text \<open>\<open>c.close()\<close>: closing a socket that is closed already does nothing more.\<close>

definition close :: "sock \<Rightarrow> unit prog" where
  "close c w = emit (Close c) (set_state c Closed w)"

text \<open>\<open>s2.accept()\<close> blocks until the server connects back.\<close>

definition accept :: "unit prog" where
  "accept w =
     (if listener w \<noteq> Open then Some (Inl OSError, w)
      else if connects_back w then emit Accept (w\<lparr>dataconn := Open\<rparr>)
      else None)"

text \<open>
  \<open>socket.socket()\<close> makes a socket, open from then on; \<open>bind\<close> and \<open>connect\<close> fail
  with \<open>OSError\<close> when the world says so. \<open>setsockopt\<close> changes nothing that the model
  records and is left out. A \<open>send\<close> on an open connection hands over all its bytes, and
  \<open>recv\<close>, \<open>send\<close> and a write to an open file do not fail.
\<close>

definition socket :: "sock \<Rightarrow> sock prog" where
  "socket c w = ret c (set_state c Open w)"

definition bind :: "sock \<Rightarrow> str \<Rightarrow> int \<Rightarrow> unit prog" where
  "bind c host p w = (if bind_ok w then emit (Bind p) w else raise OSError w)"

definition listen :: "sock \<Rightarrow> unit prog" where
  "listen c = emit Listen"

definition connect :: "sock \<Rightarrow> str \<Rightarrow> int \<Rightarrow> unit prog" where
  "connect c host p w = (if connect_ok w then emit (Connect host p) w else raise OSError w)"

definition str_lower :: "str \<Rightarrow> str prog" where
  "str_lower s w = ret (lower (lower_tbl w) s) w"

section \<open>The program\<close>

definition MAX_LIMIT :: nat where
  "MAX_LIMIT = 1024"

definition getMsg :: "sock \<Rightarrow> str prog" where
  "getMsg connection =
     seq (recv connection MAX_LIMIT) (\<lambda>data.
     seq (decode data) (\<lambda>data.
     ret (strip [10] data)))"

definition badSyntaxExit :: "unit prog" where
  "badSyntaxExit =
     seq (print (lit ''USAGE: python3 ftclient.py [server host] [server port] [command] [filename] [data port]'')) (\<lambda>_.
     seq (print (lit ''Available commands: List: -l or Get: -g [filename]'')) (\<lambda>_.
     sys_exit 1))"

definition syntaxCheck :: "str list \<Rightarrow> unit prog" where
  "syntaxCheck args =
     seq (if length args < 5 \<or> length args > 6 then badSyntaxExit else ret ()) (\<lambda>_.
     seq (getitem args 3) (\<lambda>a3.
     if a3 = lit ''-g'' \<and> length args < 6 then badSyntaxExit else ret ()))"

definition initiateContact :: "sock prog" where
  "initiateContact =
     seq (sys_argv 1) (\<lambda>host.
     seq (sys_argv 2) (\<lambda>port.
     seq (socket Control) (\<lambda>s.
     seq (int_of_str port) (\<lambda>p.
     seq (connect s host p) (\<lambda>_.
     ret s)))))"

text \<open>The padding loop of \<open>makeRequest\<close>: \<open>while len(startString) < 99: startString += "#"\<close>.\<close>

function pad :: "str \<Rightarrow> str" where
  "pad startString = (if length startString < 99 then pad (startString @ lit ''#'') else startString)"
  by pat_completeness auto
termination
  by (relation "measure (\<lambda>s. 99 - length s)") (auto simp: lit_def)

declare pad.simps [simp del]

definition makeRequest :: "int \<Rightarrow> str prog" where
  "makeRequest dataPort =
     (let startString = lit ''PORTSTART:'' @ str_of_int dataPort;
          startString = startString @ lit ''PORTEND'';
          startString = startString @ lit ''CMD:''
      in
        seq (sys_argv 3) (\<lambda>a3.
        seq (if a3 = lit ''-l'' then ret (startString @ lit ''LIST'')
             else if a3 = lit ''-g'' then
               seq (sys_argv 4) (\<lambda>a4.
               ret (startString @ lit ''GET'' @ lit ''FILENAME:'' @ a4 @ lit ''FILENAMEEND''))
             else ret (startString @ lit ''UNKNOWN'')) (\<lambda>startString.
        ret (pad startString @ [0]))))"

definition getDataPort :: "int prog" where
  "getDataPort w =
     seq (if length (argv w) = 5 then sys_argv 4 else sys_argv 5) (\<lambda>dataPort.
     int_of_str dataPort) w"

text \<open>
  The transfer loop of \<open>receiveData\<close>: \<open>while True: data = dataFD.recv(1024); if not
  data: break; f.write(data)\<close>. It runs for as long as the peer keeps the connection
  open, so it is a partial function: \<open>None\<close> where it never ends.
\<close>

lemma seq_mono [partial_function_mono]:
  assumes "\<And>w. mono_option (\<lambda>f. B f w)" and "\<And>y w. mono_option (\<lambda>f. C y f w)"
  shows "mono_option (\<lambda>f. seq (B f) (\<lambda>y. C y f) w)"
proof (rule monotoneI)
  fix f g :: "'a \<Rightarrow> 'b option"
  assume fg: "option.le_fun f g"
  have b: "option_ord (B f w) (B g w)"
    using monotoneD [of _ _ "\<lambda>f. B f w", OF assms(1) fg] .
  have c: "option_ord (C y f w') (C y g w')" for y w'
    using monotoneD [of _ _ "\<lambda>f. C y f w'", OF assms(2) fg] .
  show "option_ord (seq (B f) (\<lambda>y. C y f) w) (seq (B g) (\<lambda>y. C y g) w)"
  proof (cases "B f w")
    case None
    then show ?thesis by (simp add: seq_def flat_ord_def)
  next
    case (Some r)
    with b have g: "B g w = Some r" by (simp add: flat_ord_def)
    obtain v w' where r: "r = (v, w')" by (cases r)
    show ?thesis
    proof (cases v)
      case (Inl e)
      with Some g r show ?thesis by (simp add: seq_def flat_ord_def)
    next
      case (Inr x)
      with Some g r c [of x w'] show ?thesis by (simp add: seq_def)
    qed
  qed
qed

partial_function (option) recv_loop :: "sock \<Rightarrow> str \<Rightarrow> world \<Rightarrow> ((exn + unit) \<times> world) option" where
  "recv_loop dataFD f w =
     seq (recv dataFD 1024) (\<lambda>data w.
       if data = [] then ret () w
       else seq (f_write f data) (\<lambda>_. recv_loop dataFD f) w) w"

definition receiveData :: "sock \<Rightarrow> sock \<Rightarrow> unit prog" where
  "receiveData controlFD dataFD =
     seq (sys_argv 3) (\<lambda>a3.
     if a3 = lit ''-l'' then
       seq (getMsg dataFD) (\<lambda>dirListing.
       seq (print (lit ''Directory contents:'')) (\<lambda>_.
       print dirListing))
     else if a3 = lit ''-g'' then
       seq (getMsg controlFD) (\<lambda>status.
       if contains (lit ''ERROR'') status then
         seq (print (lit ''Message from server: '' @ status)) (\<lambda>_.
         seq (close controlFD) (\<lambda>_.
         close dataFD))
       else
         seq (sys_argv 4) (\<lambda>name.
         seq (isfile name) (\<lambda>exists.
         seq (if exists then
                seq (input (name @ lit '' already exists. Overwrite? N = no, anything else = yes'' @ [10])) (\<lambda>overwrite.
                seq (str_lower overwrite) (\<lambda>lowered.
                if lowered = lit ''n'' then seq (print (lit ''Transfer aborted.'')) (\<lambda>_. ret True)
                else ret False))
              else ret False) (\<lambda>aborted.
         if aborted then ret ()
         else
           seq (open_wb name) (\<lambda>_.
           seq (print (lit ''Transferring '' @ name @ lit ''.'')) (\<lambda>_.
           seq (recv_loop dataFD name) (\<lambda>_.
           print (lit ''Transfer complete.''))))))))
     else ret ())"

definition socketStart :: "str \<Rightarrow> int \<Rightarrow> sock prog" where
  "socketStart HOST PORT =
     seq (socket Listener) (\<lambda>s.
     seq (bind s HOST PORT) (\<lambda>_.
     ret s))"

text \<open>
  The main program (lines 203 to 245 of \<open>ftclient.py\<close>), in two parts. \<open>startup\<close> is
  everything up to the first reply of the server (lines 203 to 224): the syntax check,
  the request string, the listener on the data port, the control connection, the request
  sent, the reply read. It returns the control port as typed, the data port and the
  reply. \<open>main\<close> goes on from the test of that reply (line 225).
\<close>

definition startup :: "(str \<times> int \<times> str) prog" where
  "startup w =
     seq (syntaxCheck (argv w)) (\<lambda>_.
     seq (sys_argv 1) (\<lambda>host.
     seq (sys_argv 2) (\<lambda>port.
     seq getDataPort (\<lambda>dataPort.
     seq (makeRequest dataPort) (\<lambda>startString.
     seq (socketStart [] dataPort) (\<lambda>s2.
     seq (listen s2) (\<lambda>_.
     seq (print (lit ''Listening on data port '' @ str_of_int dataPort)) (\<lambda>_.
     seq initiateContact (\<lambda>s.
     seq sleep (\<lambda>_.
     seq (encode startString) (\<lambda>bs.
     seq (send s bs) (\<lambda>_.
     seq (getMsg s) (\<lambda>confirm.
     ret (port, dataPort, confirm)))))))))))))) w"

definition main :: "unit prog" where
  "main =
     seq startup (\<lambda>(port, dataPort, confirm).
     if contains (lit ''ERROR:'') confirm then
       seq (print confirm) (\<lambda>_.
       seq (close Control) (\<lambda>_.
       seq (close Listener) (\<lambda>_.
       sys_exit 0)))
     else
       seq (print (lit ''Connected to ftserver on control port '' @ port)) (\<lambda>_.
       seq accept (\<lambda>_.
       seq (print (lit ''ftserver connected on data port '' @ str_of_int dataPort)) (\<lambda>_.
       seq sleep (\<lambda>_.
       seq (receiveData Control Data) (\<lambda>_.
       seq (close Control) (\<lambda>_.
       seq (close Listener) (\<lambda>_.
       seq (close Data) (\<lambda>_.
       seq (print (lit ''** Operations complete. Closing connections. **'')) (\<lambda>_.
       sys_exit 0))))))))))"

section \<open>Observations and reference definitions\<close>

text \<open>What a run returned, and the world it left (read only where the run ended).\<close>

definition returned :: "((exn + 'a) \<times> world) option \<Rightarrow> 'a option" where
  "returned r = (case r of Some (Inr x, w) \<Rightarrow> Some x | _ \<Rightarrow> None)"

definition raised :: "((exn + 'a) \<times> world) option \<Rightarrow> exn option" where
  "raised r = (case r of Some (Inl e, w) \<Rightarrow> Some e | _ \<Rightarrow> None)"

definition world_after :: "((exn + 'a) \<times> world) option \<Rightarrow> world" where
  "world_after r = snd (the r)"

text \<open>The events a run added to the trace of the world it started in.\<close>

definition new_events :: "world \<Rightarrow> world \<Rightarrow> event list" where
  "new_events w w' = drop (length (trace w)) (trace w')"

text \<open>
  A piece of program that only appends events of the kind \<open>E\<close> to the trace and raises
  only exceptions of the kind \<open>X\<close>.
\<close>

definition emits :: "(event \<Rightarrow> bool) \<Rightarrow> (exn \<Rightarrow> bool) \<Rightarrow> 'a prog \<Rightarrow> bool" where
  "emits E X m =
     (\<forall>w r w'. m w = Some (r, w') \<longrightarrow>
        (\<exists>es. trace w' = trace w @ es \<and> list_all E es) \<and> (\<forall>e. r = Inl e \<longrightarrow> X e))"

text \<open>The exceptions other than \<open>SystemExit\<close>: what a failing library call raises.\<close>

fun failure :: "exn \<Rightarrow> bool" where
  "failure (SystemExit n) = False"
| "failure _ = True"

text \<open>
  The fields of the wire request string as the specification lays them out (section 3):
  \<open>"PORTSTART:" <dataPort-decimal> "PORTEND" "CMD:" <cmd-body>\<close>, the command and the
  file name read from the command line as the program reads them.
\<close>

definition wire_fields :: "str list \<Rightarrow> int \<Rightarrow> str" where
  "wire_fields args dataPort =
     lit ''PORTSTART:'' @ str_of_int dataPort @ lit ''PORTEND'' @ lit ''CMD:'' @
     (if args ! 3 = lit ''-l'' then lit ''LIST''
      else if args ! 3 = lit ''-g'' then lit ''GET'' @ lit ''FILENAME:'' @ args ! 4 @ lit ''FILENAMEEND''
      else lit ''UNKNOWN'')"

text \<open>The question \<open>receiveData\<close> asks before it overwrites the file \<open>name\<close>.\<close>

definition prompt :: "str \<Rightarrow> str" where
  "prompt name = name @ lit '' already exists. Overwrite? N = no, anything else = yes'' @ [10]"

text \<open>
  The reply decoder as the claim about it words it: the text with its trailing newline
  removed, one newline at most and nothing else.
\<close>

definition without_trailing_newline :: "str \<Rightarrow> str" where
  "without_trailing_newline s = (if s \<noteq> [] \<and> last s = 10 then butlast s else s)"

text \<open>What is left of a connection's deliveries after one \<open>recv(n)\<close>.\<close>

definition leftover :: "nat \<Rightarrow> byte list stream \<Rightarrow> byte list stream" where
  "leftover n s = (if length (shd s) \<le> n then stl s else drop n (shd s) ## stl s)"

section \<open>Example runs\<close>

text \<open>
  Concrete worlds for the scenarios of the specification. \<open>dec_int\<close> is \<open>int\<close> on plain
  decimal digits, the lower-case table leaves the code points from 128 on alone, and
  \<open>ascii\<close> writes the bytes of an ASCII text.
\<close>

definition ascii :: "string \<Rightarrow> byte list" where
  "ascii s = map of_char s"

definition dec_int :: "str \<Rightarrow> int option" where
  "dec_int s =
     (if s \<noteq> [] \<and> list_all (\<lambda>c. 48 \<le> c \<and> c \<le> 57) s
      then Some (int (foldl (\<lambda>a c. 10 * a + (c - 48)) 0 s))
      else None)"

definition base_world :: world where
  "base_world =
     \<lparr> argv = [lit ''ftclient.py'', lit ''localhost'', lit ''30020'', lit ''-l'', lit ''50000''],
       py_int = dec_int, lower_tbl = (\<lambda>c. [c]),
       bind_ok = True, connect_ok = True, connects_back = True,
       control_in = sconst [], data_in = sconst [], stdin = [],
       openable = (\<lambda>name. True), files = Map.empty,
       listener = Absent, control = Absent, dataconn = Absent, trace = [] \<rparr>"

text \<open>Successful listing: the server acknowledges and sends two names.\<close>

definition list_world :: world where
  "list_world = base_world
     \<lparr> control_in := (ascii ''OK'' @ [10]) ## sconst [],
       data_in := (ascii ''a.txt'' @ [10] @ ascii ''b.txt'' @ [10]) ## sconst [] \<rparr>"

text \<open>The same listing run, with a first reply that contains ERROR but not ERROR: .\<close>

definition noerror_world :: world where
  "noerror_world = list_world \<lparr> control_in := ascii ''NOERRORHERE'' ## sconst [] \<rparr>"

text \<open>Server error: the first reply is an error message.\<close>

definition error_world :: world where
  "error_world = base_world
     \<lparr> argv := [lit ''ftclient.py'', lit ''localhost'', lit ''30020'', lit ''-x'', lit ''50000''],
       control_in := (ascii ''ERROR: invalid command'' @ [10]) ## sconst [] \<rparr>"

text \<open>The server does not accept the control connection.\<close>

definition refused_world :: world where
  "refused_world = base_world \<lparr> connect_ok := False \<rparr>"

text \<open>
  GET of \<open>report.csv\<close>, no local file of that name: the server acknowledges, reports the
  file ready, and streams six bytes in two deliveries before it closes.
\<close>

definition get_world :: world where
  "get_world = base_world
     \<lparr> argv := [lit ''ftclient.py'', lit ''localhost'', lit ''30020'', lit ''-g'', lit ''report.csv'',
                lit ''50000''],
       control_in := (ascii ''OK'' @ [10]) ## (ascii ''READY'' @ [10]) ## sconst [],
       data_in := ascii ''1,2'' ## (ascii '',3'' @ [10]) ## sconst [] \<rparr>"

text \<open>The same GET when \<open>report.csv\<close> exists locally and the user answers \<open>n\<close>.\<close>

definition decline_world :: world where
  "decline_world = get_world
     \<lparr> stdin := [lit ''n''], files := [lit ''report.csv'' \<mapsto> ascii ''old''] \<rparr>"

text \<open>
  The same GET when \<open>report.csv\<close> exists locally, the user just presses return, and the
  server closes the data connection without sending a byte.
\<close>

definition overwrite_world :: world where
  "overwrite_world = get_world
     \<lparr> stdin := [[]], files := [lit ''report.csv'' \<mapsto> ascii ''old''], data_in := sconst [] \<rparr>"

text \<open>The same GET when the server reports, after the acknowledgement, that the file is missing.\<close>

definition missing_world :: world where
  "missing_world = get_world
     \<lparr> control_in := (ascii ''OK'' @ [10]) ## (ascii ''ERROR: file not found'' @ [10]) ## sconst [] \<rparr>"

text \<open>GET of a file whose name has 51 characters.\<close>

definition long_name_world :: world where
  "long_name_world = get_world
     \<lparr> argv := [lit ''ftclient.py'', lit ''localhost'', lit ''30020'', lit ''-g'', replicate 51 97,
                lit ''50000''] \<rparr>"

text \<open>
  A world at the call of \<open>receiveData\<close>: the three sockets are open and the first
  reply on the control connection has been read.
\<close>

definition accepted :: "world \<Rightarrow> world" where
  "accepted w = w \<lparr> control_in := stl (control_in w),
                     listener := Open, control := Open, dataconn := Open \<rparr>"

text \<open>A reply with a newline in front and two behind.\<close>

definition newline_world :: world where
  "newline_world = list_world
     \<lparr> control := Open, control_in := ([10] @ ascii ''abc'' @ [10, 10]) ## sconst [] \<rparr>"

section \<open>Basic facts\<close>


lemmas prim_defs = ret_def raise_def emit_def getitem_def sys_argv_def int_of_str_def
  print_def sys_exit_def sleep_def input_def isfile_def open_wb_def f_write_def decode_def
  encode_def state_of_def set_state_def incoming_def set_incoming_def recv_def send_def
  close_def accept_def socket_def bind_def listen_def connect_def str_lower_def

lemma returned_Some: "returned r = Some x \<Longrightarrow> \<exists>w. r = Some (Inr x, w)"
  by (auto simp: returned_def split: option.splits sum.splits prod.splits)

lemma syntaxCheck_Inr:
  assumes "syntaxCheck args w = Some (Inr u, w')"
  shows "w' = w \<and> 5 \<le> length args \<and> length args \<le> 6 \<and> (args ! 3 = lit ''-g'' \<longrightarrow> length args = 6)"
  using assms
  by (auto simp: syntaxCheck_def badSyntaxExit_def seq_def prim_defs split: if_splits)

lemma pad_eq: "pad s = s @ replicate (99 - length s) 35"
proof (induction s rule: pad.induct)
  case (1 s)
  show ?case
  proof (cases "length s < 99")
    case True
    then have "pad s = pad (s @ lit ''#'')" by (subst pad.simps) simp
    also have "\<dots> = (s @ lit ''#'') @ replicate (99 - length (s @ lit ''#'')) 35"
      using True by (rule "1.IH")
    also have "\<dots> = s @ replicate (Suc (98 - length s)) 35"
      by (simp add: lit_def)
    also have "Suc (98 - length s) = 99 - length s"
      using True by simp
    finally show ?thesis .
  next
    case False
    then show ?thesis by (subst pad.simps) simp
  qed
qed

lemma digits_set: "set (digits n) \<subseteq> {48..57}"
proof (induction n rule: digits.induct)
  case (1 n)
  show ?case
  proof (cases "n < 10")
    case True
    then show ?thesis by (subst digits.simps) auto
  next
    case False
    have "n mod 10 < 10" by simp
    then have "48 + n mod 10 \<in> {48..57}" by auto
    with False "1.IH" show ?thesis by (subst digits.simps) auto
  qed
qed

lemma digits_length: "n < 10 ^ k \<Longrightarrow> 0 < k \<Longrightarrow> length (digits n) \<le> k"
proof (induction n arbitrary: k rule: digits.induct)
  case (1 n)
  show ?case
  proof (cases "n < 10")
    case True
    with "1.prems" show ?thesis by (subst digits.simps) simp
  next
    case False
    with "1.prems" obtain j where k: "k = Suc j" by (cases k) auto
    with False "1.prems" have j: "0 < j" by (cases j) auto
    from "1.prems" k have "n div 10 < 10 ^ j"
      by (simp add: less_mult_imp_div_less mult.commute)
    with "1.IH" [OF False this j] False k show ?thesis
      by (subst digits.simps) simp
  qed
qed

lemma str_of_int_no_nul: "0 \<notin> set (str_of_int i)"
  using digits_set [of "nat (- i)"] digits_set [of "nat i"]
  by (auto simp: str_of_int_def)

lemma str_of_int_length: "0 \<le> i \<Longrightarrow> i \<le> 99999 \<Longrightarrow> length (str_of_int i) \<le> 5"
  using digits_length [of "nat i" 5] by (simp add: str_of_int_def)

lemma lit_no_nul: "0 \<notin> set (lit ''PORTSTART:'')" "0 \<notin> set (lit ''PORTEND'')" "0 \<notin> set (lit ''CMD:'')"
  "0 \<notin> set (lit ''LIST'')" "0 \<notin> set (lit ''GET'')" "0 \<notin> set (lit ''FILENAME:'')"
  "0 \<notin> set (lit ''FILENAMEEND'')" "0 \<notin> set (lit ''UNKNOWN'')"
  by (simp_all add: lit_def)

lemma makeRequest_eq:
  assumes "5 \<le> length (argv w)"
  shows "makeRequest dataPort w =
           Some (Inr (wire_fields (argv w) dataPort
                      @ replicate (99 - length (wire_fields (argv w) dataPort)) 35 @ [0]), w)"
  using assms
  by (simp add: makeRequest_def Let_def wire_fields_def seq_def sys_argv_def getitem_def ret_def pad_eq)

lemma wire_fields_length:
  "length (wire_fields args dataPort) =
     21 + length (str_of_int dataPort) +
     (if args ! 3 = lit ''-l'' then 4 else if args ! 3 = lit ''-g'' then 23 + length (args ! 4) else 7)"
  by (simp add: wire_fields_def lit_def)

lemma wire_fields_no_nul:
  assumes "\<forall>a \<in> set args. 0 \<notin> set a" and "5 \<le> length args"
  shows "0 \<notin> set (wire_fields args dataPort)"
proof -
  have "args ! 4 \<in> set args" using assms(2) by simp
  with assms(1) have "0 \<notin> set (args ! 4)" by blast
  then show ?thesis
    using str_of_int_no_nul [of dataPort] by (simp add: wire_fields_def lit_no_nul)
qed

text \<open>
  C9. For every command line that passes \<open>syntaxCheck\<close> (its strings free of the null
  character, which a command line cannot carry), \<open>makeRequest\<close> returns the unpadded
  fields, padded with \<open>#\<close> up to 99 characters if they are shorter, followed by one null
  character: there is exactly one null, at the end; the length is \<open>max(L, 99) + 1\<close> for
  fields of length \<open>L\<close>; the fields are never cut; so the output has at least 100
  characters, and more than 100 when \<open>L\<close> exceeds 99.
\<close>

theorem makeRequest_length_max:
  assumes "returned (syntaxCheck (argv w) w) = Some ()"
    and "\<forall>a \<in> set (argv w). 0 \<notin> set a"
  shows "\<exists>body. makeRequest dataPort w = Some (Inr (body @ [0]), w)
           \<and> 0 \<notin> set body
           \<and> length body = max (length (wire_fields (argv w) dataPort)) 99
           \<and> take (length (wire_fields (argv w) dataPort)) body = wire_fields (argv w) dataPort
           \<and> 100 \<le> length (body @ [0])
           \<and> (99 < length (wire_fields (argv w) dataPort) \<longrightarrow> 100 < length (body @ [0]))"
proof -
  from assms(1) obtain w' where "syntaxCheck (argv w) w = Some (Inr (), w')"
    by (auto dest: returned_Some)
  then have len: "5 \<le> length (argv w)" by (auto dest: syntaxCheck_Inr)
  let ?f = "wire_fields (argv w) dataPort"
  let ?body = "?f @ replicate (99 - length ?f) 35"
  have "makeRequest dataPort w = Some (Inr (?body @ [0]), w)"
    using makeRequest_eq [OF len] by simp
  moreover have "0 \<notin> set ?body"
    using wire_fields_no_nul [OF assms(2) len] by simp
  moreover have "length ?body = max (length ?f) 99" by simp
  moreover have "take (length ?f) ?body = ?f" by simp
  ultimately show ?thesis by (intro exI [of _ ?body]) simp
qed

text \<open>
  C2, as amended. For every command line that passes \<open>syntaxCheck\<close> whose unpadded
  fields, \<open>"PORTSTART:" + dataPort + "PORTEND" + "CMD:"\<close> and the command body, have at
  most 99 characters, \<open>makeRequest\<close> returns these fields padded with \<open>#\<close> to 99
  characters and ended by one null character: 100 characters. The output has exactly
  100 characters if and only if the fields have at most 99. With a data port from 0 to
  99999 that is so for every command other than GET; for GET the fields have 44
  characters and the digits of the port and the file name, so it is so exactly when
  the digits and the name together have at most 55 characters.
\<close>

theorem makeRequest_fixed_length:
  assumes "returned (syntaxCheck (argv w) w) = Some ()"
  shows "(length (wire_fields (argv w) dataPort) \<le> 99 \<longrightarrow>
            makeRequest dataPort w
              = Some (Inr (wire_fields (argv w) dataPort
                           @ replicate (99 - length (wire_fields (argv w) dataPort)) 35 @ [0]), w)
            \<and> length (wire_fields (argv w) dataPort
                       @ replicate (99 - length (wire_fields (argv w) dataPort)) 35) = 99)
         \<and> (map_option length (returned (makeRequest dataPort w)) = Some 100)
             = (length (wire_fields (argv w) dataPort) \<le> 99)
         \<and> (0 \<le> dataPort \<and> dataPort \<le> 99999 \<and> argv w ! 3 \<noteq> lit ''-g'' \<longrightarrow>
              length (wire_fields (argv w) dataPort) \<le> 99)
         \<and> (argv w ! 3 = lit ''-g'' \<longrightarrow>
              length (wire_fields (argv w) dataPort)
                = 44 + length (str_of_int dataPort) + length (argv w ! 4))"
proof -
  from assms obtain w' where "syntaxCheck (argv w) w = Some (Inr (), w')"
    by (auto dest: returned_Some)
  then have len: "5 \<le> length (argv w)" by (auto dest: syntaxCheck_Inr)
  let ?f = "wire_fields (argv w) dataPort"
  note run = makeRequest_eq [OF len, of dataPort]
  have 1: "length ?f \<le> 99 \<longrightarrow>
            makeRequest dataPort w = Some (Inr (?f @ replicate (99 - length ?f) 35 @ [0]), w)
            \<and> length (?f @ replicate (99 - length ?f) 35) = 99"
    using run by simp
  have "map_option length (returned (makeRequest dataPort w))
          = Some (length ?f + (99 - length ?f) + 1)"
    using run by (simp add: returned_def)
  then have 2: "(map_option length (returned (makeRequest dataPort w)) = Some 100)
                  = (length ?f \<le> 99)"
    by auto
  have 3: "0 \<le> dataPort \<and> dataPort \<le> 99999 \<and> argv w ! 3 \<noteq> lit ''-g'' \<longrightarrow> length ?f \<le> 99"
    using str_of_int_length [of dataPort] by (auto simp: wire_fields_length)
  have "lit ''-g'' \<noteq> lit ''-l''" by (simp add: lit_def)
  then have 4: "argv w ! 3 = lit ''-g'' \<longrightarrow>
              length ?f = 44 + length (str_of_int dataPort) + length (argv w ! 4)"
    by (simp add: wire_fields_length)
  from 1 2 3 4 show ?thesis by blast
qed


lemmas eval_defs = lit_def ascii_def dec_int_def str_of_int_def digits.simps
  is_cont_def second_ok_def strip_def encode_cp_def MAX_LIMIT_def

lemmas world_defs = base_world_def list_world_def noerror_world_def error_world_def
  refused_world_def get_world_def decline_world_def overwrite_world_def missing_world_def
  long_name_world_def newline_world_def

lemma syntaxCheck_long_name: "returned (syntaxCheck (argv long_name_world) long_name_world) = Some ()"
  by (simp add: returned_def syntaxCheck_def badSyntaxExit_def seq_def prim_defs world_defs lit_def)

lemma syntaxCheck_get: "returned (syntaxCheck (argv get_world) get_world) = Some ()"
  by (simp add: returned_def syntaxCheck_def badSyntaxExit_def seq_def prim_defs world_defs lit_def)

text \<open>C9 at the GET of a 51-character name: 100 characters and the null.\<close>

theorem makeRequest_length_max_witness:
  "\<exists>body. makeRequest 50000 long_name_world = Some (Inr (body @ [0]), long_name_world)
      \<and> 0 \<notin> set body \<and> length body = 100 \<and> length (body @ [0]) = 101"
proof -
  have nul: "\<forall>a \<in> set (argv long_name_world). 0 \<notin> set a"
    by (simp add: world_defs lit_def)
  have len: "length (wire_fields (argv long_name_world) 50000) = 100"
    by (simp add: wire_fields_length world_defs eval_defs)
  from makeRequest_length_max [OF syntaxCheck_long_name nul, of 50000] len
  show ?thesis by auto
qed

lemma syntaxCheck_list: "returned (syntaxCheck (argv list_world) list_world) = Some ()"
  by (simp add: returned_def syntaxCheck_def badSyntaxExit_def seq_def prim_defs world_defs lit_def)

text \<open>
  C2 as amended: the GET of \<open>report.csv\<close> on data port 50000 gives 59 characters of
  fields, 40 of padding and the null; the GET of a 51-character name on data port 7
  gives 100 characters as well; the fields of a listing request on port 50000 fit.
\<close>

theorem makeRequest_fixed_length_witness:
  "makeRequest 50000 get_world
     = Some (Inr (lit ''PORTSTART:50000PORTENDCMD:GETFILENAME:report.csvFILENAMEEND''
                  @ replicate 40 35 @ [0]), get_world)
   \<and> map_option length (returned (makeRequest 50000 get_world)) = Some 100
   \<and> length (wire_fields (argv get_world) 50000) = 59
   \<and> map_option length (returned (makeRequest 7 long_name_world)) = Some 100
   \<and> length (wire_fields (argv list_world) 50000) \<le> 99"
proof -
  have wf: "wire_fields (argv get_world) 50000
              = lit ''PORTSTART:50000PORTENDCMD:GETFILENAME:report.csvFILENAMEEND''"
    by (simp add: wire_fields_def world_defs eval_defs)
  have l1: "length (wire_fields (argv get_world) 50000) = 59"
    by (simp add: wire_fields_length world_defs eval_defs)
  have g: "argv get_world ! 3 = lit ''-g''"
    by (simp add: world_defs)
  have s1: "length (str_of_int 50000) = 5" "length (argv get_world ! 4) = 10"
    by (simp_all add: world_defs eval_defs)
  have l2: "length (wire_fields (argv long_name_world) 7) \<le> 99"
    by (simp add: wire_fields_length world_defs eval_defs)
  have n: "argv list_world ! 3 \<noteq> lit ''-g''"
    by (simp add: world_defs lit_def)
  note t = makeRequest_fixed_length [OF syntaxCheck_get, of 50000]
  from t have "(map_option length (returned (makeRequest 50000 get_world)) = Some 100)
      = (length (wire_fields (argv get_world) 50000) \<le> 99)"
    by blast
  with l1 have a2: "map_option length (returned (makeRequest 50000 get_world)) = Some 100"
    by simp
  from t l1 have "makeRequest 50000 get_world
       = Some (Inr (wire_fields (argv get_world) 50000
                    @ replicate (99 - length (wire_fields (argv get_world) 50000)) 35 @ [0]), get_world)"
    by simp
  with wf l1 have a1: "makeRequest 50000 get_world
       = Some (Inr (lit ''PORTSTART:50000PORTENDCMD:GETFILENAME:report.csvFILENAMEEND''
                  @ replicate 40 35 @ [0]), get_world)"
    by simp
  from t g have "length (wire_fields (argv get_world) 50000)
      = 44 + length (str_of_int 50000) + length (argv get_world ! 4)"
    by blast
  with s1 have b: "length (wire_fields (argv get_world) 50000) = 59" by simp
  from makeRequest_fixed_length [OF syntaxCheck_long_name, of 7]
  have "(map_option length (returned (makeRequest 7 long_name_world)) = Some 100)
      = (length (wire_fields (argv long_name_world) 7) \<le> 99)"
    by blast
  with l2 have c: "map_option length (returned (makeRequest 7 long_name_world)) = Some 100"
    by simp
  from makeRequest_fixed_length [OF syntaxCheck_list, of 50000] n
  have d: "length (wire_fields (argv list_world) 50000) \<le> 99" by simp
  from a1 a2 b c d show ?thesis by blast
qed

text \<open>
  C2 as stated fails: with data port 50000 and a file name of 51 characters the request has
  101 characters.
\<close>

theorem makeRequest_fixed_length_counterexample:
  "returned (syntaxCheck (argv long_name_world) long_name_world) = Some ()
   \<and> map_option length (returned (makeRequest 50000 long_name_world)) = Some 101"
proof -
  have "5 \<le> length (argv long_name_world)" by (simp add: world_defs)
  from makeRequest_eq [OF this, of 50000]
  have "map_option length (returned (makeRequest 50000 long_name_world))
          = Some (length (wire_fields (argv long_name_world) 50000) +
                  (99 - length (wire_fields (argv long_name_world) 50000)) + 1)"
    by (simp add: returned_def)
  also have "length (wire_fields (argv long_name_world) 50000) = 100"
    by (simp add: wire_fields_length world_defs eval_defs)
  finally show ?thesis using syntaxCheck_long_name by simp
qed

section \<open>Sequencing\<close>

lemma seq_Inr: "m w = Some (Inr x, w1) \<Longrightarrow> seq m f w = f x w1"
  by (simp add: seq_def)

lemma seq_Inl: "m w = Some (Inl e, w1) \<Longrightarrow> seq m f w = Some (Inl e, w1)"
  by (simp add: seq_def)

lemma seq_None: "m w = None \<Longrightarrow> seq m f w = None"
  by (simp add: seq_def)

lemma seq_InrE:
  assumes "seq m f w = Some (Inr y, w')"
  obtains x w1 where "m w = Some (Inr x, w1)" and "f x w1 = Some (Inr y, w')"
  using assms by (auto simp: seq_def split: option.splits sum.splits prod.splits)

lemma seq_InlE:
  assumes "seq m f w = Some (Inl e, w')"
  obtains (first) "m w = Some (Inl e, w')"
  | (later) x w1 where "m w = Some (Inr x, w1)" and "f x w1 = Some (Inl e, w')"
  using assms by (auto simp: seq_def split: option.splits sum.splits prod.splits)

lemma returned_Inr [simp]: "returned (Some (Inr x, w)) = Some x"
  by (simp add: returned_def)

lemma returned_Inl [simp]: "returned (Some (Inl e, w)) = None"
  by (simp add: returned_def)

lemma returned_None [simp]: "returned None = None"
  by (simp add: returned_def)

lemma raised_Inl [simp]: "raised (Some (Inl e, w)) = Some e"
  by (simp add: raised_def)

lemma raised_Inr [simp]: "raised (Some (Inr x, w)) = None"
  by (simp add: raised_def)

lemma raised_None [simp]: "raised None = None"
  by (simp add: raised_def)

lemma world_after_Some [simp]: "world_after (Some (r, w)) = w"
  by (simp add: world_after_def)

lemma new_events_append [simp]: "trace w' = trace w @ es \<Longrightarrow> new_events w w' = es"
  by (simp add: new_events_def)

section \<open>The substring test and \<open>strip\<close>\<close>

lemma contains_iff: "contains sub s \<longleftrightarrow> (\<exists>p q. s = p @ sub @ q)"
proof (induction s)
  case Nil
  then show ?case by auto
next
  case (Cons x xs)
  show ?case
  proof
    assume "contains sub (x # xs)"
    then consider "prefix sub (x # xs)" | "contains sub xs" by auto
    then show "\<exists>p q. x # xs = p @ sub @ q"
    proof cases
      case 1
      then obtain q where "x # xs = sub @ q" by (auto simp: prefix_def)
      then have "x # xs = [] @ sub @ q" by simp
      then show ?thesis by blast
    next
      case 2
      with Cons.IH obtain p q where "xs = p @ sub @ q" by blast
      then have "x # xs = (x # p) @ sub @ q" by simp
      then show ?thesis by blast
    qed
  next
    assume "\<exists>p q. x # xs = p @ sub @ q"
    then obtain p q where pq: "x # xs = p @ sub @ q" by blast
    show "contains sub (x # xs)"
    proof (cases p)
      case Nil
      with pq have "prefix sub (x # xs)" by (simp add: prefix_def)
      then show ?thesis by simp
    next
      case (Cons y p')
      with pq have "xs = p' @ sub @ q" by simp
      with Cons.IH have "contains sub xs" by blast
      then show ?thesis by simp
    qed
  qed
qed

lemma rev_split: "xs = rev (dropWhile P (rev xs)) @ rev (takeWhile P (rev xs))"
  by (metis rev_append rev_rev_ident takeWhile_dropWhile_id)

lemma strip_decomp:
  "\<exists>a b. s = a @ strip cs s @ b \<and> set a \<subseteq> set cs \<and> set b \<subseteq> set cs"
proof -
  let ?P = "\<lambda>c. c \<in> set cs"
  let ?d = "dropWhile ?P s"
  let ?a = "takeWhile ?P s"
  let ?b = "rev (takeWhile ?P (rev ?d))"
  have d: "?d = strip cs s @ ?b" unfolding strip_def by (rule rev_split)
  have "s = ?a @ ?d" by simp
  with d have "s = ?a @ strip cs s @ ?b" by simp
  moreover have "set ?a \<subseteq> set cs" by (auto dest: set_takeWhileD)
  moreover have "set ?b \<subseteq> set cs" by (auto dest: set_takeWhileD)
  ultimately show ?thesis by blast
qed

lemma strip_ends:
  assumes "strip cs s \<noteq> []"
  shows "hd (strip cs s) \<notin> set cs \<and> last (strip cs s) \<notin> set cs"
proof -
  let ?P = "\<lambda>c. c \<in> set cs"
  let ?d = "dropWhile ?P s"
  let ?e = "dropWhile ?P (rev ?d)"
  have m: "strip cs s = rev ?e" by (simp add: strip_def)
  with assms have e: "?e \<noteq> []" by simp
  then have "\<not> ?P (hd ?e)" by (rule hd_dropWhile)
  with e m have l: "last (strip cs s) \<notin> set cs" by (simp add: last_rev)
  have d: "?d = strip cs s @ rev (takeWhile ?P (rev ?d))" unfolding strip_def by (rule rev_split)
  have dne: "?d \<noteq> []" using d assms by (metis append_is_Nil_conv)
  then have "\<not> ?P (hd ?d)" by (rule hd_dropWhile)
  moreover from d assms have "hd ?d = hd (strip cs s)" by (metis hd_append2)
  ultimately show ?thesis using l by simp
qed

section \<open>What each function returns, and the world it leaves\<close>

lemma getDataPort_Inr:
  assumes "getDataPort w = Some (Inr dp, w')"
  shows "w' = w \<and> py_int w (argv w ! (if length (argv w) = 5 then 4 else 5)) = Some dp"
  using assms
  by (auto simp: getDataPort_def seq_def prim_defs split: if_splits option.splits)

lemma makeRequest_pure:
  assumes "makeRequest dp w = Some (r, w')"
  shows "w' = w"
  using assms
  by (auto simp: makeRequest_def Let_def seq_def prim_defs split: if_splits)

lemma socketStart_Inr:
  assumes "socketStart h p w = Some (Inr s, w')"
  shows "s = Listener \<and> bind_ok w \<and> w' = w\<lparr>listener := Open, trace := trace w @ [Bind p]\<rparr>"
  using assms
  by (auto simp: socketStart_def seq_def prim_defs split: if_splits)

lemma initiateContact_Inr:
  assumes "initiateContact w = Some (Inr s, w')"
  shows "s = Control \<and> connect_ok w \<and> 2 < length (argv w) \<and>
         (\<exists>p. py_int w (argv w ! 2) = Some p \<and>
              w' = w\<lparr>control := Open, trace := trace w @ [Connect (argv w ! 1) p]\<rparr>)"
  using assms
  by (auto simp: initiateContact_def seq_def prim_defs split: if_splits option.splits)

lemma recv_eq:
  "recv c n w =
     (if c = Listener \<or> state_of c w \<noteq> Open then Some (Inl OSError, w)
      else Some (Inr (take n (shd (incoming c w))),
                 set_incoming c (leftover n (incoming c w)) (w\<lparr>trace := trace w @ [Recv c]\<rparr>)))"
  by (simp add: recv_def leftover_def Let_def)

lemma getMsg_eq:
  "getMsg c w =
     (if c = Listener \<or> state_of c w \<noteq> Open then Some (Inl OSError, w)
      else case decode_utf8 (map unat (take MAX_LIMIT (shd (incoming c w)))) of
             None \<Rightarrow> Some (Inl UnicodeDecodeError,
                           set_incoming c (leftover MAX_LIMIT (incoming c w)) (w\<lparr>trace := trace w @ [Recv c]\<rparr>))
           | Some text \<Rightarrow> Some (Inr (strip [10] text),
                           set_incoming c (leftover MAX_LIMIT (incoming c w)) (w\<lparr>trace := trace w @ [Recv c]\<rparr>)))"
  by (simp add: getMsg_def seq_def recv_eq decode_def ret_def raise_def split: option.splits)

lemma getMsg_Inr:
  assumes "getMsg c w = Some (Inr m, w')"
  shows "c \<noteq> Listener \<and> state_of c w = Open \<and>
         w' = set_incoming c (leftover MAX_LIMIT (incoming c w)) (w\<lparr>trace := trace w @ [Recv c]\<rparr>)"
  using assms by (auto simp: getMsg_eq split: if_splits option.splits)

lemma startup_Inr:
  assumes "startup w = Some (Inr (port, dp, confirm), w1)"
  shows "listener w1 = Open \<and> control w1 = Open \<and> dataconn w1 = dataconn w \<and>
         argv w1 = argv w \<and> py_int w1 = py_int w \<and> lower_tbl w1 = lower_tbl w \<and>
         connects_back w1 = connects_back w \<and> data_in w1 = data_in w \<and> stdin w1 = stdin w \<and>
         openable w1 = openable w \<and> files w1 = files w \<and>
         port = argv w ! 2 \<and> 5 \<le> length (argv w) \<and> length (argv w) \<le> 6 \<and>
         (argv w ! 3 = lit ''-g'' \<longrightarrow> length (argv w) = 6) \<and>
         (\<exists>p bs. trace w1 = trace w @ [Bind dp, Listen, Print (lit ''Listening on data port '' @ str_of_int dp),
                                Connect (argv w ! 1) p, Sleep, Send bs, Recv Control])"
  using assms
  apply (simp only: startup_def)
  apply (elim seq_InrE)
  apply (drule syntaxCheck_Inr getDataPort_Inr makeRequest_pure socketStart_Inr initiateContact_Inr getMsg_Inr)+
  apply (auto simp: prim_defs split: if_splits option.splits)
  done

section \<open>The reply decoder\<close>

text \<open>
  C8, as amended. \<open>getMsg\<close> decodes what one \<open>recv\<close> of at most 1024 bytes returned as
  UTF-8 and removes every newline at the front and at the end of the text, not only one
  at the end: the decoded text is the message between a run of newlines before it and a
  run of newlines after it, and the message neither starts nor ends with a newline.
\<close>

theorem getMsg_strips_newlines:
  assumes "returned (recv c MAX_LIMIT w) = Some data"
    and "decode_utf8 (map unat data) = Some text"
  shows "\<exists>a m b. returned (getMsg c w) = Some m \<and> text = a @ m @ b
           \<and> set a \<subseteq> {10} \<and> set b \<subseteq> {10}
           \<and> (m = [] \<or> (hd m \<noteq> 10 \<and> last m \<noteq> 10))"
proof -
  from assms(1) have ok: "\<not> (c = Listener \<or> state_of c w \<noteq> Open)"
    and data: "data = take MAX_LIMIT (shd (incoming c w))"
    by (auto simp: recv_eq split: if_splits)
  with assms(2) have m: "returned (getMsg c w) = Some (strip [10] text)"
    by (simp add: getMsg_eq)
  from strip_decomp [of "text" "[10]"] obtain a b
    where "text = a @ strip [10] text @ b" "set a \<subseteq> {10}" "set b \<subseteq> {10}" by auto
  moreover have "strip [10] text = [] \<or> (hd (strip [10] text) \<noteq> 10 \<and> last (strip [10] text) \<noteq> 10)"
    using strip_ends [of "[10]" "text"] by auto
  ultimately show ?thesis using m by blast
qed

text \<open>C8 as amended, at a reply with one newline in front and two behind: \<open>abc\<close> is left.\<close>

theorem getMsg_strips_newlines_witness:
  "\<exists>a m b. returned (getMsg Control newline_world) = Some m
      \<and> [10] @ lit ''abc'' @ [10, 10] = a @ m @ b
      \<and> set a \<subseteq> {10} \<and> set b \<subseteq> {10} \<and> (m = [] \<or> (hd m \<noteq> 10 \<and> last m \<noteq> 10))"
proof -
  have r: "returned (recv Control MAX_LIMIT newline_world) = Some ([10] @ ascii ''abc'' @ [10, 10])"
    by (simp add: recv_eq prim_defs world_defs eval_defs)
  have d: "decode_utf8 (map unat ([10] @ ascii ''abc'' @ [10, 10])) = Some ([10] @ lit ''abc'' @ [10, 10])"
    by (simp add: eval_defs)
  from getMsg_strips_newlines [OF r d] show ?thesis .
qed

text \<open>
  C8 as stated fails: for the reply \<open>"\nabc\n\n"\<close> the caller gets \<open>"abc"\<close>, not the text
  with only its trailing newline removed, \<open>"\nabc\n"\<close>.
\<close>

theorem getMsg_strips_newlines_counterexample:
  "returned (getMsg Control newline_world) = Some (lit ''abc'')
   \<and> without_trailing_newline ([10] @ lit ''abc'' @ [10, 10]) = [10] @ lit ''abc'' @ [10]
   \<and> returned (getMsg Control newline_world)
        \<noteq> Some (without_trailing_newline ([10] @ lit ''abc'' @ [10, 10]))"
  by (simp add: getMsg_eq prim_defs world_defs eval_defs without_trailing_newline_def)

section \<open>Events and exceptions of the pieces of the program\<close>

lemma emitsD:
  assumes "emits E X m" and "m w = Some (r, w')"
  shows "\<exists>es. trace w' = trace w @ es \<and> list_all E es" and "r = Inl e \<Longrightarrow> X e"
  using assms by (auto simp: emits_def)

lemma emits_seq:
  assumes m: "emits E X m" and f: "\<And>x. emits E X (f x)"
  shows "emits E X (seq m f)"
  unfolding emits_def
proof (intro allI impI)
  fix w r w'
  assume run: "seq m f w = Some (r, w')"
  show "(\<exists>es. trace w' = trace w @ es \<and> list_all E es) \<and> (\<forall>e. r = Inl e \<longrightarrow> X e)"
  proof (cases "m w")
    case None
    with run show ?thesis by (simp add: seq_def)
  next
    case (Some a)
    obtain v w1 where a: "a = (v, w1)" by (cases a)
    show ?thesis
    proof (cases v)
      case (Inl e)
      with Some a run have "r = Inl e" "w' = w1" by (simp_all add: seq_def)
      with Some a Inl emitsD [OF m, of w "Inl e" w1] show ?thesis by auto
    next
      case (Inr x)
      with Some a run have fx: "f x w1 = Some (r, w')" by (simp add: seq_def)
      from Some a Inr emitsD(1) [OF m, of w "Inr x" w1]
      obtain es1 where 1: "trace w1 = trace w @ es1" "list_all E es1" by auto
      from emitsD(1) [OF f fx]
      obtain es2 where 2: "trace w' = trace w1 @ es2" "list_all E es2" by auto
      from 1 2 have "trace w' = trace w @ (es1 @ es2) \<and> list_all E (es1 @ es2)" by simp
      moreover have "\<forall>e. r = Inl e \<longrightarrow> X e" using emitsD(2) [OF f fx] by blast
      ultimately show ?thesis by blast
    qed
  qed
qed

lemma emits_if: "emits E X a \<Longrightarrow> emits E X b \<Longrightarrow> emits E X (if c then a else b)"
  by simp

lemma emits_weaken:
  assumes "emits E X m" and "\<And>e. E e \<Longrightarrow> E' e" and "\<And>e. X e \<Longrightarrow> X' e"
  shows "emits E' X' m"
  using assms unfolding emits_def list_all_iff by blast

lemma emits_ret: "emits E X (ret x)"
  by (simp add: emits_def ret_def)

lemma emits_raise: "X e \<Longrightarrow> emits E X (raise e)"
  by (simp add: emits_def raise_def)

lemma emits_emit: "E e \<Longrightarrow> emits E X (emit e)"
  by (auto simp: emits_def emit_def)

lemma emits_getitem: "X IndexError \<Longrightarrow> emits E X (getitem xs i)"
  by (simp add: getitem_def emits_ret emits_raise)

lemma emits_sys_argv: "X IndexError \<Longrightarrow> emits E X (sys_argv i)"
  by (auto simp: emits_def sys_argv_def getitem_def ret_def raise_def split: if_splits)

lemma emits_int_of_str: "X ValueError \<Longrightarrow> emits E X (int_of_str s)"
  by (auto simp: emits_def int_of_str_def ret_def raise_def split: option.splits)

lemma emits_print: "E (Print s) \<Longrightarrow> emits E X (print s)"
  by (simp add: print_def emits_emit)

lemma emits_sleep: "E Sleep \<Longrightarrow> emits E X sleep"
  by (simp add: sleep_def emits_emit)

lemma emits_input: "E (Input p) \<Longrightarrow> X EOFError \<Longrightarrow> emits E X (input p)"
  by (auto simp: emits_def input_def split: list.splits)

lemma emits_isfile: "emits E X (isfile name)"
  by (auto simp: emits_def isfile_def ret_def)

lemma emits_open_wb: "E (OpenW name) \<Longrightarrow> X OSError \<Longrightarrow> emits E X (open_wb name)"
  by (auto simp: emits_def open_wb_def split: if_splits)

lemma emits_f_write: "E (Write name d) \<Longrightarrow> emits E X (f_write name d)"
  by (auto simp: emits_def f_write_def)

lemma emits_decode: "X UnicodeDecodeError \<Longrightarrow> emits E X (decode d)"
  by (auto simp: emits_def decode_def ret_def raise_def split: option.splits)

lemma emits_encode: "X UnicodeEncodeError \<Longrightarrow> emits E X (encode s)"
  by (auto simp: emits_def encode_def ret_def raise_def split: option.splits)

lemma emits_recv: "E (Recv c) \<Longrightarrow> X OSError \<Longrightarrow> emits E X (recv c n)"
  by (cases c) (auto simp: emits_def recv_eq set_incoming_def split: if_splits)

lemma emits_send: "E (Send bs) \<Longrightarrow> X OSError \<Longrightarrow> emits E X (send c bs)"
  by (auto simp: emits_def send_def emit_def split: if_splits)

lemma emits_close: "E (Close c) \<Longrightarrow> emits E X (close c)"
  by (cases c) (auto simp: emits_def close_def emit_def set_state_def)

lemma emits_accept: "E Accept \<Longrightarrow> X OSError \<Longrightarrow> emits E X accept"
  by (auto simp: emits_def accept_def emit_def split: if_splits)

lemma emits_socket: "emits E X (socket c)"
  by (cases c) (auto simp: emits_def socket_def ret_def set_state_def)

lemma emits_bind: "E (Bind p) \<Longrightarrow> X OSError \<Longrightarrow> emits E X (bind c h p)"
  by (auto simp: emits_def bind_def emit_def raise_def split: if_splits)

lemma emits_listen: "E Listen \<Longrightarrow> emits E X (listen c)"
  by (simp add: listen_def emits_emit)

lemma emits_connect: "E (Connect h p) \<Longrightarrow> X OSError \<Longrightarrow> emits E X (connect c h p)"
  by (auto simp: emits_def connect_def emit_def raise_def split: if_splits)

lemma emits_str_lower: "emits E X (str_lower s)"
  by (auto simp: emits_def str_lower_def ret_def)

lemma emits_getMsg:
  "E (Recv c) \<Longrightarrow> X OSError \<Longrightarrow> X UnicodeDecodeError \<Longrightarrow> emits E X (getMsg c)"
  unfolding getMsg_def
  by (intro emits_seq emits_recv emits_decode emits_ret)

lemma recv_loop_emits_aux:
  assumes run: "recv_loop c f w = Some y"
  shows "E (Recv c) \<and> (\<forall>d. E (Write f d)) \<and> X OSError \<longrightarrow>
         (\<exists>es. trace (snd y) = trace w @ es \<and> list_all E es) \<and> (\<forall>e. fst y = Inl e \<longrightarrow> X e)"
proof (rule recv_loop.raw_induct
    [where P = "\<lambda>c f w y. E (Recv c) \<and> (\<forall>d. E (Write f d)) \<and> X OSError \<longrightarrow>
         (\<exists>es. trace (snd y) = trace w @ es \<and> list_all E es) \<and> (\<forall>e. fst y = Inl e \<longrightarrow> X e)",
     OF _ run])
  fix loop :: "sock \<Rightarrow> str \<Rightarrow> world \<Rightarrow> ((exn + unit) \<times> world) option"
  fix c f w y
  assume IH: "\<And>c f w y. loop c f w = Some y \<Longrightarrow>
      E (Recv c) \<and> (\<forall>d. E (Write f d)) \<and> X OSError \<longrightarrow>
      (\<exists>es. trace (snd y) = trace w @ es \<and> list_all E es) \<and> (\<forall>e. fst y = Inl e \<longrightarrow> X e)"
  assume body: "seq (recv c 1024)
      (\<lambda>data w. if data = [] then ret () w else seq (f_write f data) (\<lambda>_. loop c f) w) w = Some y"
  show "E (Recv c) \<and> (\<forall>d. E (Write f d)) \<and> X OSError \<longrightarrow>
      (\<exists>es. trace (snd y) = trace w @ es \<and> list_all E es) \<and> (\<forall>e. fst y = Inl e \<longrightarrow> X e)"
  proof
    assume pre: "E (Recv c) \<and> (\<forall>d. E (Write f d)) \<and> X OSError"
    have loop: "emits E X (loop c f)"
      unfolding emits_def
    proof (intro allI impI)
      fix w0 r w'
      assume "loop c f w0 = Some (r, w')"
      from IH [OF this] pre
      show "(\<exists>es. trace w' = trace w0 @ es \<and> list_all E es) \<and> (\<forall>e. r = Inl e \<longrightarrow> X e)"
        by simp
    qed
    have step: "emits E X (\<lambda>w. if d = [] then ret () w else seq (f_write f d) (\<lambda>_. loop c f) w)" for d
    proof (cases "d = []")
      case True
      then show ?thesis by (simp add: emits_ret)
    next
      case False
      have "emits E X (seq (f_write f d) (\<lambda>_. loop c f))"
        using pre loop by (intro emits_seq emits_f_write) simp_all
      with False show ?thesis by simp
    qed
    have "emits E X (seq (recv c 1024)
            (\<lambda>data w. if data = [] then ret () w else seq (f_write f data) (\<lambda>_. loop c f) w))"
      using pre step by (intro emits_seq emits_recv) simp_all
    moreover obtain r w' where y: "y = (r, w')" by (cases y)
    ultimately show "(\<exists>es. trace (snd y) = trace w @ es \<and> list_all E es) \<and> (\<forall>e. fst y = Inl e \<longrightarrow> X e)"
      using body emitsD [of E X _ w r w'] by auto
  qed
qed

lemma emits_recv_loop:
  assumes "E (Recv c)" and "\<And>d. E (Write f d)" and "X OSError"
  shows "emits E X (recv_loop c f)"
  unfolding emits_def
proof (intro allI impI)
  fix w r w'
  assume "recv_loop c f w = Some (r, w')"
  from recv_loop_emits_aux [OF this, of E X] assms
  show "(\<exists>es. trace w' = trace w @ es \<and> list_all E es) \<and> (\<forall>e. r = Inl e \<longrightarrow> X e)"
    by simp
qed

lemma emits_receiveData:
  assumes "\<And>e. E e" and "\<And>e. failure e \<Longrightarrow> X e"
  shows "emits E X (receiveData c d)"
  unfolding receiveData_def
  by (intro emits_seq emits_if emits_ret emits_sys_argv emits_getMsg emits_print emits_close
        emits_isfile emits_input emits_str_lower emits_open_wb emits_recv_loop assms)
     simp_all

lemma emits_getDataPort: "X IndexError \<Longrightarrow> X ValueError \<Longrightarrow> emits E X getDataPort"
  by (auto simp: emits_def getDataPort_def seq_def sys_argv_def getitem_def int_of_str_def
      ret_def raise_def split: if_splits option.splits)

lemma emits_makeRequest: "X IndexError \<Longrightarrow> emits E X (makeRequest p)"
  unfolding makeRequest_def Let_def
  by (intro emits_seq emits_if emits_ret emits_sys_argv)

lemma emits_socketStart: "E (Bind p) \<Longrightarrow> X OSError \<Longrightarrow> emits E X (socketStart h p)"
  unfolding socketStart_def
  by (intro emits_seq emits_ret emits_socket emits_bind)

lemma emits_initiateContact:
  assumes "\<And>h p. E (Connect h p)" and "\<And>e. failure e \<Longrightarrow> X e"
  shows "emits E X initiateContact"
  unfolding initiateContact_def
  by (intro emits_seq emits_ret emits_sys_argv emits_socket emits_int_of_str emits_connect assms)
     simp_all

lemma syntaxCheck_Inl:
  assumes "syntaxCheck args w = Some (Inl e, w')"
  shows "e = SystemExit 1 \<and> listener w' = listener w \<and> control w' = control w
         \<and> dataconn w' = dataconn w \<and> files w' = files w"
  using assms
  by (auto simp: syntaxCheck_def badSyntaxExit_def seq_def prim_defs split: if_splits)

lemma no_exit:
  assumes "emits (\<lambda>e. True) failure m"
  shows "m w \<noteq> Some (Inl (SystemExit n), w')"
  using emitsD(2) [OF assms, of w "Inl (SystemExit n)" w' "SystemExit n"] by auto

lemmas no_exits =
  no_exit [OF emits_sys_argv] no_exit [OF emits_getDataPort] no_exit [OF emits_makeRequest]
  no_exit [OF emits_socketStart] no_exit [OF emits_listen] no_exit [OF emits_print]
  no_exit [OF emits_initiateContact] no_exit [OF emits_sleep] no_exit [OF emits_encode]
  no_exit [OF emits_send] no_exit [OF emits_getMsg] no_exit [OF emits_accept]
  no_exit [OF emits_receiveData] no_exit [OF emits_close]

lemma startup_exit:
  assumes "startup w = Some (Inl (SystemExit n), w')"
  shows "listener w' = listener w \<and> control w' = control w \<and> dataconn w' = dataconn w"
  using assms
  apply (simp only: startup_def)
  apply (elim seq_InlE)
  apply (auto dest: syntaxCheck_Inl simp: no_exits ret_def)
  done

section \<open>The first reply of the server\<close>

lemmas run_defs = main_def startup_def syntaxCheck_def badSyntaxExit_def getDataPort_def
  makeRequest_def Let_def socketStart_def initiateContact_def getMsg_eq receiveData_def
  seq_def pad.simps leftover_def

lemma raised_Some: "raised r = Some e \<Longrightarrow> \<exists>w. r = Some (Inl e, w)"
  by (auto simp: raised_def split: option.splits sum.splits prod.splits)

lemma main_after_startup:
  assumes "startup w = Some (Inr (port, dataPort, confirm), w1)"
  shows "main w =
     (if contains (lit ''ERROR:'') confirm then
       seq (print confirm) (\<lambda>_.
       seq (close Control) (\<lambda>_.
       seq (close Listener) (\<lambda>_.
       sys_exit 0)))
     else
       seq (print (lit ''Connected to ftserver on control port '' @ port)) (\<lambda>_.
       seq accept (\<lambda>_.
       seq (print (lit ''ftserver connected on data port '' @ str_of_int dataPort)) (\<lambda>_.
       seq sleep (\<lambda>_.
       seq (receiveData Control Data) (\<lambda>_.
       seq (close Control) (\<lambda>_.
       seq (close Listener) (\<lambda>_.
       seq (close Data) (\<lambda>_.
       seq (print (lit ''** Operations complete. Closing connections. **'')) (\<lambda>_.
       sys_exit 0)))))))))) w1"
  using assms by (simp add: main_def seq_Inr [of startup])

lemma main_error_branch:
  assumes s: "startup w = Some (Inr (port, dataPort, confirm), w1)"
    and e: "contains (lit ''ERROR:'') confirm"
  shows "\<exists>w'. main w = Some (Inl (SystemExit 0), w')
           \<and> trace w' = trace w1 @ [Print confirm, Close Control, Close Listener]
           \<and> control w' = Closed \<and> listener w' = Closed \<and> dataconn w' = dataconn w1
           \<and> files w' = files w1"
  by (simp add: main_after_startup [OF s] e seq_def prim_defs)

lemma main_ack_branch:
  assumes s: "startup w = Some (Inr (port, dataPort, confirm), w1)"
    and e: "\<not> contains (lit ''ERROR:'') confirm"
    and m: "main w = Some (r, w')"
  shows "\<exists>es. trace w' = trace w1 @ Print (lit ''Connected to ftserver on control port '' @ port) # Accept # es"
proof -
  note f = startup_Inr [OF s]
  define rest where "rest =
       seq (print (lit ''ftserver connected on data port '' @ str_of_int dataPort)) (\<lambda>_.
       seq sleep (\<lambda>_.
       seq (receiveData Control Data) (\<lambda>_.
       seq (close Control) (\<lambda>_.
       seq (close Listener) (\<lambda>_.
       seq (close Data) (\<lambda>_.
       seq (print (lit ''** Operations complete. Closing connections. **'')) (\<lambda>_.
       sys_exit 0 :: unit prog)))))))"
  from m e have "seq (print (lit ''Connected to ftserver on control port '' @ port)) (\<lambda>_.
       seq accept (\<lambda>_. rest)) w1 = Some (r, w')"
    by (simp add: main_after_startup [OF s] rest_def)
  then have chain: "seq (print (lit ''Connected to ftserver on control port '' @ port)) (\<lambda>_.
       seq accept (\<lambda>_. rest)) w1 = Some (r, w')" .
  have l: "listener w1 = Open" using f by simp
  define w3 where "w3 = w1\<lparr>dataconn := Open,
      trace := trace w1 @ [Print (lit ''Connected to ftserver on control port '' @ port), Accept]\<rparr>"
  have a: "trace w3 = trace w1 @ [Print (lit ''Connected to ftserver on control port '' @ port), Accept]"
    by (simp add: w3_def)
  have rest: "rest w3 = Some (r, w')"
    using chain l by (cases "connects_back w1") (simp_all add: seq_def print_def emit_def accept_def w3_def)
  have "emits (\<lambda>e. True) (\<lambda>e. True) rest"
    unfolding rest_def sys_exit_def
    by (intro emits_seq emits_print emits_sleep emits_receiveData emits_close emits_raise) simp_all
  from emitsD(1) [OF this rest] a show ?thesis by auto
qed

text \<open>
  C3. If the first reply of the server, as \<open>startup\<close> returns it, contains \<open>ERROR:\<close> (the
  test the program applies to it), the program prints the reply, closes the control
  connection and the listener and exits with status 0: these three events are all it
  does after the reply was read, \<open>accept\<close> is not among the events of the run, and the
  data connection is left as it was, never created.
\<close>

theorem server_error_exit:
  assumes "returned (startup w) = Some (port, dataPort, confirm)"
    and "contains (lit ''ERROR:'') confirm"
  shows "raised (main w) = Some (SystemExit 0)
         \<and> map_option exit_code (raised (main w)) = Some 0
         \<and> new_events (world_after (startup w)) (world_after (main w))
             = [Print confirm, Close Control, Close Listener]
         \<and> control (world_after (main w)) = Closed
         \<and> listener (world_after (main w)) = Closed
         \<and> dataconn (world_after (main w)) = dataconn w
         \<and> Accept \<notin> set (new_events w (world_after (main w)))"
proof -
  from assms(1) obtain w1 where s: "startup w = Some (Inr (port, dataPort, confirm), w1)"
    by (auto dest: returned_Some)
  note f = startup_Inr [OF s]
  from main_error_branch [OF s assms(2)] obtain w' where
    m: "main w = Some (Inl (SystemExit 0), w')"
    and t: "trace w' = trace w1 @ [Print confirm, Close Control, Close Listener]"
    and c: "control w' = Closed" "listener w' = Closed" "dataconn w' = dataconn w1"
    by blast
  from f obtain p bs where t1: "trace w1 = trace w @ [Bind dataPort, Listen,
      Print (lit ''Listening on data port '' @ str_of_int dataPort),
      Connect (argv w ! 1) p, Sleep, Send bs, Recv Control]" by blast
  from t t1 have "new_events w w' = [Bind dataPort, Listen,
      Print (lit ''Listening on data port '' @ str_of_int dataPort),
      Connect (argv w ! 1) p, Sleep, Send bs, Recv Control, Print confirm, Close Control, Close Listener]"
    by (simp add: new_events_def)
  then have "Accept \<notin> set (new_events w w')" by simp
  with m t c f s show ?thesis by simp
qed

text \<open>C3 at the server-error scenario: the reply to an unknown command.\<close>

theorem server_error_exit_witness:
  "raised (main error_world) = Some (SystemExit 0)
   \<and> map_option exit_code (raised (main error_world)) = Some 0
   \<and> new_events (world_after (startup error_world)) (world_after (main error_world))
       = [Print (lit ''ERROR: invalid command''), Close Control, Close Listener]
   \<and> control (world_after (main error_world)) = Closed
   \<and> listener (world_after (main error_world)) = Closed
   \<and> dataconn (world_after (main error_world)) = Absent
   \<and> Accept \<notin> set (new_events error_world (world_after (main error_world)))"
proof -
  have s: "returned (startup error_world) = Some (lit ''30020'', 50000, lit ''ERROR: invalid command'')"
    by (simp add: run_defs prim_defs world_defs eval_defs)
  have e: "contains (lit ''ERROR:'') (lit ''ERROR: invalid command'')"
    by (simp add: lit_def)
  have d: "dataconn error_world = Absent" by (simp add: world_defs)
  from server_error_exit [OF s e] d show ?thesis by simp
qed

lemma lit_g_neq_l: "lit ''-g'' \<noteq> lit ''-l''"
  by (simp add: lit_def)

lemma receiveData_get:
  assumes "3 < length (argv w)" and "argv w ! 3 = lit ''-g''"
  shows "receiveData controlFD dataFD w =
       seq (getMsg controlFD) (\<lambda>status.
       if contains (lit ''ERROR'') status then
         seq (print (lit ''Message from server: '' @ status)) (\<lambda>_.
         seq (close controlFD) (\<lambda>_.
         close dataFD))
       else
         seq (sys_argv 4) (\<lambda>name.
         seq (isfile name) (\<lambda>exists.
         seq (if exists then
                seq (input (name @ lit '' already exists. Overwrite? N = no, anything else = yes'' @ [10])) (\<lambda>overwrite.
                seq (str_lower overwrite) (\<lambda>lowered.
                if lowered = lit ''n'' then seq (print (lit ''Transfer aborted.'')) (\<lambda>_. ret True)
                else ret False))
              else ret False) (\<lambda>aborted.
         if aborted then ret ()
         else
           seq (open_wb name) (\<lambda>_.
           seq (print (lit ''Transferring '' @ name @ lit ''.'')) (\<lambda>_.
           seq (recv_loop dataFD name) (\<lambda>_.
           print (lit ''Transfer complete.'')))))))) w"
proof -
  have "sys_argv 3 w = Some (Inr (lit ''-g''), w)"
    using assms by (simp add: sys_argv_def getitem_def ret_def)
  then show ?thesis
    by (simp add: receiveData_def seq_Inr [of "sys_argv 3"] lit_g_neq_l)
qed

lemma session_check:
  assumes "returned (startup w) = Some (port, dataPort, confirm)"
  shows "(raised (main w) = Some (SystemExit 0) \<and> Accept \<notin> set (new_events w (world_after (main w))))
           = contains (lit ''ERROR:'') confirm"
proof -
  from assms obtain w1 where s: "startup w = Some (Inr (port, dataPort, confirm), w1)"
    by (auto dest: returned_Some)
  from startup_Inr [OF s] obtain p bs where t1: "trace w1 = trace w @ [Bind dataPort, Listen,
      Print (lit ''Listening on data port '' @ str_of_int dataPort),
      Connect (argv w ! 1) p, Sleep, Send bs, Recv Control]" by blast
  show ?thesis
  proof (cases "contains (lit ''ERROR:'') confirm")
    case True
    from main_error_branch [OF s True] obtain w' where
      "main w = Some (Inl (SystemExit 0), w')"
      "trace w' = trace w1 @ [Print confirm, Close Control, Close Listener]" by blast
    with t1 True show ?thesis by (simp add: new_events_def)
  next
    case False
    have "Accept \<in> set (new_events w (world_after (main w)))"
      if "raised (main w) = Some (SystemExit 0)"
    proof -
      from that obtain w' where m: "main w = Some (Inl (SystemExit 0), w')"
        by (auto dest: raised_Some)
      from main_ack_branch [OF s False m] t1 m show ?thesis
        by (auto simp: new_events_def)
    qed
    with False show ?thesis by blast
  qed
qed

lemma deferred_check:
  assumes a: "3 < length (argv w)" "argv w ! 3 = lit ''-g''"
    and g: "returned (getMsg Control w) = Some status"
  shows "(receiveData Control Data w \<noteq> None
          \<and> Print (lit ''Message from server: '' @ status)
               \<in> set (new_events w (world_after (receiveData Control Data w))))
           = contains (lit ''ERROR'') status"
proof -
  from g obtain w1 where g1: "getMsg Control w = Some (Inr status, w1)"
    by (auto dest: returned_Some)
  from getMsg_Inr [OF g1] have t1: "trace w1 = trace w @ [Recv Control]"
    by (simp add: set_incoming_def)
  let ?msg = "Print (lit ''Message from server: '' @ status)"
  show ?thesis
  proof (cases "contains (lit ''ERROR'') status")
    case True
    then have "receiveData Control Data w
        = seq (print (lit ''Message from server: '' @ status)) (\<lambda>_.
          seq (close Control) (\<lambda>_. close Data)) w1"
      by (simp add: receiveData_get [OF a] seq_Inr [of "getMsg Control", OF g1])
    then obtain w' where "receiveData Control Data w = Some (Inr (), w')"
      "trace w' = trace w1 @ [?msg, Close Control, Close Data]"
      by (simp add: seq_def prim_defs)
    with t1 True show ?thesis by (simp add: new_events_def)
  next
    case False
    define rest :: "unit prog" where "rest =
         seq (sys_argv 4) (\<lambda>name.
         seq (isfile name) (\<lambda>exists.
         seq (if exists then
                seq (input (name @ lit '' already exists. Overwrite? N = no, anything else = yes'' @ [10])) (\<lambda>overwrite.
                seq (str_lower overwrite) (\<lambda>lowered.
                if lowered = lit ''n'' then seq (print (lit ''Transfer aborted.'')) (\<lambda>_. ret True)
                else ret False))
              else ret False) (\<lambda>aborted.
         if aborted then ret ()
         else
           seq (open_wb name) (\<lambda>_.
           seq (print (lit ''Transferring '' @ name @ lit ''.'')) (\<lambda>_.
           seq (recv_loop Data name) (\<lambda>_.
           print (lit ''Transfer complete.'')))))))"
    from False have r: "receiveData Control Data w = rest w1"
      by (simp add: receiveData_get [OF a] seq_Inr [of "getMsg Control", OF g1] rest_def)
    have em: "emits (\<lambda>e. e \<noteq> ?msg) (\<lambda>e. True) rest"
      unfolding rest_def
      by (intro emits_seq emits_if emits_ret emits_sys_argv emits_isfile emits_input
            emits_str_lower emits_print emits_open_wb emits_recv_loop)
         (simp_all add: lit_def)
    have "?msg \<notin> set (new_events w w')" if run: "rest w1 = Some (r', w')" for r' w'
    proof -
      from emitsD(1) [OF em run] obtain es
        where es: "trace w' = trace w1 @ es" "list_all (\<lambda>e. e \<noteq> ?msg) es" by blast
      from es(1) t1 have "new_events w w' = Recv Control # es" by (simp add: new_events_def)
      with es(2) show ?thesis by (auto simp: list_all_iff)
    qed
    with r False show ?thesis by (cases "rest w1") auto
  qed
qed

text \<open>
  C1, as amended. The two replies read from the control channel are tested for two
  different substrings. The first reply after the request is taken for an error, the run
  ending with exit status 0 and no \<open>accept\<close>, if and only if it contains \<open>ERROR:\<close>, colon
  included. The status reply read in a GET is taken for an error, the message printed
  after \<open>Message from server:\<close>, if and only if it contains \<open>ERROR\<close> anywhere.
\<close>

theorem reply_classification:
  "(returned (startup w) = Some (port, dataPort, confirm) \<longrightarrow>
      (raised (main w) = Some (SystemExit 0) \<and> Accept \<notin> set (new_events w (world_after (main w))))
        = (\<exists>p q. confirm = p @ lit ''ERROR:'' @ q))
   \<and> (3 < length (argv v) \<and> argv v ! 3 = lit ''-g'' \<and> returned (getMsg Control v) = Some status \<longrightarrow>
      (receiveData Control Data v \<noteq> None
       \<and> Print (lit ''Message from server: '' @ status)
            \<in> set (new_events v (world_after (receiveData Control Data v))))
        = (\<exists>p q. status = p @ lit ''ERROR'' @ q))"
  using session_check [of w port dataPort confirm] deferred_check [of v status]
  by (simp add: contains_iff)

text \<open>
  C1 as amended, at the server-error scenario for the first reply and at a GET whose status
  reply reports a missing file.
\<close>

theorem reply_classification_witness:
  "raised (main error_world) = Some (SystemExit 0)
   \<and> Accept \<notin> set (new_events error_world (world_after (main error_world)))
   \<and> receiveData Control Data (accepted missing_world) \<noteq> None
   \<and> Print (lit ''Message from server: ERROR: file not found'')
        \<in> set (new_events (accepted missing_world)
              (world_after (receiveData Control Data (accepted missing_world))))"
proof -
  have s: "returned (startup error_world) = Some (lit ''30020'', 50000, lit ''ERROR: invalid command'')"
    by (simp add: run_defs prim_defs world_defs eval_defs)
  have a: "3 < length (argv (accepted missing_world)) \<and> argv (accepted missing_world) ! 3 = lit ''-g''
           \<and> returned (getMsg Control (accepted missing_world)) = Some (lit ''ERROR: file not found'')"
    by (simp add: getMsg_eq prim_defs world_defs accepted_def eval_defs)
  have e1: "\<exists>p q. lit ''ERROR: invalid command'' = p @ lit ''ERROR:'' @ q"
    unfolding contains_iff [symmetric] by (simp add: lit_def)
  have e2: "\<exists>p q. lit ''ERROR: file not found'' = p @ lit ''ERROR'' @ q"
    unfolding contains_iff [symmetric] by (simp add: lit_def)
  have m: "lit ''Message from server: '' @ lit ''ERROR: file not found''
             = lit ''Message from server: ERROR: file not found''"
    by (simp add: lit_def)
  from reply_classification [of error_world "lit ''30020''" 50000 "lit ''ERROR: invalid command''"
      "accepted missing_world" "lit ''ERROR: file not found''"] s a e1 e2 m
  show ?thesis by simp
qed

text \<open>
  C1 as stated fails: the first reply \<open>NOERRORHERE\<close> contains \<open>ERROR\<close>, and the session
  goes on as after an acknowledgement: it accepts the data connection, prints the listing
  and never prints the reply.
\<close>

theorem reply_classification_counterexample:
  "returned (startup noerror_world) = Some (lit ''30020'', 50000, lit ''NOERRORHERE'')
   \<and> contains (lit ''ERROR'') (lit ''NOERRORHERE'')
   \<and> raised (main noerror_world) = Some (SystemExit 0)
   \<and> Accept \<in> set (new_events noerror_world (world_after (main noerror_world)))
   \<and> Print (lit ''Directory contents:'') \<in> set (new_events noerror_world (world_after (main noerror_world)))
   \<and> Print (lit ''NOERRORHERE'') \<notin> set (new_events noerror_world (world_after (main noerror_world)))"
  by (simp add: run_defs prim_defs world_defs eval_defs new_events_def)

section \<open>Closing the sockets\<close>

lemma startup_exit_status:
  assumes "startup w = Some (Inl (SystemExit n), w')"
  shows "n = 1"
  using assms
  apply (simp only: startup_def)
  apply (elim seq_InlE)
  apply (auto dest: syntaxCheck_Inl simp: no_exits ret_def)
  done

lemma main_exit:
  assumes m: "main w = Some (Inl (SystemExit n), w')"
  shows "(n = 1 \<and> listener w' = listener w \<and> control w' = control w \<and> dataconn w' = dataconn w)
         \<or> (n = 0 \<and> listener w' = Closed \<and> control w' = Closed
             \<and> (dataconn w' = dataconn w \<or> dataconn w' = Closed))"
proof (cases "startup w")
  case None
  with m show ?thesis by (simp add: main_def seq_def)
next
  case (Some a)
  obtain v w1 where a: "a = (v, w1)" by (cases a)
  show ?thesis
  proof (cases v)
    case (Inl e)
    with Some a m have "startup w = Some (Inl (SystemExit n), w')"
      by (simp add: main_def seq_def)
    from startup_exit [OF this] startup_exit_status [OF this] show ?thesis by simp
  next
    case (Inr x)
    obtain port dataPort confirm where x: "x = (port, dataPort, confirm)" by (cases x)
    from Some a Inr x have s: "startup w = Some (Inr (port, dataPort, confirm), w1)" by simp
    note f = startup_Inr [OF s]
    show ?thesis
    proof (cases "contains (lit ''ERROR:'') confirm")
      case True
      from main_error_branch [OF s True] m f show ?thesis by auto
    next
      case False
      with m have "seq (print (lit ''Connected to ftserver on control port '' @ port)) (\<lambda>_.
         seq accept (\<lambda>_.
         seq (print (lit ''ftserver connected on data port '' @ str_of_int dataPort)) (\<lambda>_.
         seq sleep (\<lambda>_.
         seq (receiveData Control Data) (\<lambda>_.
         seq (close Control) (\<lambda>_.
         seq (close Listener) (\<lambda>_.
         seq (close Data) (\<lambda>_.
         seq (print (lit ''** Operations complete. Closing connections. **'')) (\<lambda>_.
         sys_exit 0 :: unit prog))))))))) w1 = Some (Inl (SystemExit n), w')"
        by (simp add: main_after_startup [OF s])
      then have "n = 0 \<and> listener w' = Closed \<and> control w' = Closed \<and> dataconn w' = Closed"
        apply (elim seq_InlE)
        apply (auto simp: no_exits prim_defs split: if_splits)
        done
      then show ?thesis by simp
    qed
  qed
qed

text \<open>
  C7, as amended. Whenever the program ends through one of its own exits, no socket is
  left open: after the usage exit (status 1) none was created, and after the exits with
  status 0 (the server's error reply, or the end of the transfer) the listener and the
  control connection are closed and the data connection is closed or was never created.
  Closing is idempotent: a second \<open>close\<close> leaves a socket closed. Nothing is said of a
  run that ends with an uncaught exception: the program has no handler that would clean
  up there.
\<close>

theorem exit_closes_sockets:
  assumes "listener w = Absent" and "control w = Absent" and "dataconn w = Absent"
    and "raised (main w) = Some (SystemExit n)"
  shows "listener (world_after (main w)) \<noteq> Open
         \<and> control (world_after (main w)) \<noteq> Open
         \<and> dataconn (world_after (main w)) \<noteq> Open
         \<and> (n = 0 \<longrightarrow> listener (world_after (main w)) = Closed
                      \<and> control (world_after (main w)) = Closed)
         \<and> state_of c (world_after (seq (close c) (\<lambda>_. close c) v))
             = state_of c (world_after (close c v))"
proof -
  from assms(4) obtain w' where m: "main w = Some (Inl (SystemExit n), w')"
    by (auto dest: raised_Some)
  have "state_of c (world_after (seq (close c) (\<lambda>_. close c) v))
          = state_of c (world_after (close c v))"
    by (cases c) (simp_all add: seq_def close_def emit_def set_state_def state_of_def)
  with main_exit [OF m] assms(1-3) m show ?thesis by auto
qed

text \<open>
  C7 as amended, at a GET whose status reply reports a missing file: \<open>receiveData\<close>
  closes the two connections, the main program closes all three sockets again, and the
  run exits with status 0.
\<close>

theorem exit_closes_sockets_witness:
  "raised (main missing_world) = Some (SystemExit 0)
   \<and> listener (world_after (main missing_world)) = Closed
   \<and> control (world_after (main missing_world)) = Closed
   \<and> dataconn (world_after (main missing_world)) \<noteq> Open"
proof -
  have a: "listener missing_world = Absent" "control missing_world = Absent"
    "dataconn missing_world = Absent"
    by (simp_all add: world_defs)
  have r: "raised (main missing_world) = Some (SystemExit 0)"
    by (simp add: run_defs prim_defs world_defs eval_defs)
  from exit_closes_sockets [OF a r] r show ?thesis by simp
qed

text \<open>
  C7 as stated fails: when the server refuses the control connection the run ends with
  the uncaught \<open>OSError\<close> of \<open>connect\<close>, and the listener, opened before, and the socket
  made for the control connection are still open.
\<close>

theorem exit_closes_sockets_counterexample:
  "raised (main refused_world) = Some OSError
   \<and> Listen \<in> set (trace (world_after (main refused_world)))
   \<and> listener (world_after (main refused_world)) = Open
   \<and> control (world_after (main refused_world)) = Open"
  by (simp add: run_defs prim_defs world_defs eval_defs)

section \<open>The transfer loop\<close>

lemma recv_loop_stop:
  assumes "dataconn w = Open" and "shd (data_in w) = []"
  shows "recv_loop Data f w
           = Some (Inr (), w\<lparr>data_in := stl (data_in w), trace := trace w @ [Recv Data]\<rparr>)"
  using assms
  by (subst recv_loop.simps)
     (simp add: seq_def recv_eq leftover_def state_of_def incoming_def set_incoming_def ret_def)

lemma recv_loop_step:
  assumes "dataconn w = Open" and "shd (data_in w) \<noteq> []" and "files w f = Some old"
  shows "recv_loop Data f w
           = recv_loop Data f
               (w\<lparr>data_in := leftover 1024 (data_in w),
                  files := (files w)(f \<mapsto> old @ take 1024 (shd (data_in w))),
                  trace := trace w @ [Recv Data, Write f (take 1024 (shd (data_in w)))]\<rparr>)"
  using assms
  by (subst recv_loop.simps)
     (simp add: seq_def recv_eq state_of_def incoming_def set_incoming_def f_write_def)

lemma recv_loop_run:
  assumes "dataconn w = Open" and "data_in w !! k = []" and "\<forall>j<k. data_in w !! j \<noteq> []"
    and "files w f = Some old"
  shows "\<exists>ds. recv_loop Data f w
             = Some (Inr (), w\<lparr>data_in := sdrop (Suc k) (data_in w),
                               files := (files w)(f \<mapsto> old @ concat ds),
                               trace := trace w @ concat (map (\<lambda>d. [Recv Data, Write f d]) ds) @ [Recv Data]\<rparr>)
           \<and> concat ds = concat (stake k (data_in w))
           \<and> list_all (\<lambda>d. d \<noteq> [] \<and> length d \<le> 1024) ds"
  using assms
proof (induction "length (concat (stake k (data_in w))) + k" arbitrary: k w old rule: less_induct)
  case less
  let ?s = "data_in w"
  show ?case
  proof (cases k)
    case 0
    with less.prems have e: "shd ?s = []" by simp
    have "(files w)(f \<mapsto> old) = files w"
      using less.prems(4) by (rule map_upd_triv)
    with recv_loop_stop [OF less.prems(1) e, of f] 0 show ?thesis
      by (intro exI [of _ "[]"]) simp
  next
    case (Suc k')
    with less.prems(3) have ne: "shd ?s \<noteq> []" by (auto dest: spec [of _ 0])
    let ?d = "take 1024 (shd ?s)"
    let ?w2 = "w\<lparr>data_in := leftover 1024 ?s,
                  files := (files w)(f \<mapsto> old @ ?d),
                  trace := trace w @ [Recv Data, Write f ?d]\<rparr>"
    have step: "recv_loop Data f w = recv_loop Data f ?w2"
      by (rule recv_loop_step [OF less.prems(1) ne less.prems(4)])
    have d: "?d \<noteq> [] \<and> length ?d \<le> 1024" using ne by simp
    have later: "?s !! Suc i = stl ?s !! i" for i by simp
    show ?thesis
    proof (cases "length (shd ?s) \<le> 1024")
      case True
      then have s2: "data_in ?w2 = stl ?s" by (simp add: leftover_def)
      have full: "?d = shd ?s" using True by simp
      have 1: "dataconn ?w2 = Open" using less.prems(1) by simp
      have 2: "data_in ?w2 !! k' = []" using less.prems(2) Suc s2 by simp
      have 3: "\<forall>j<k'. data_in ?w2 !! j \<noteq> []"
      proof (intro allI impI)
        fix j assume "j < k'"
        then have "Suc j < k" using Suc by simp
        with less.prems(3) have "?s !! Suc j \<noteq> []" by blast
        then show "data_in ?w2 !! j \<noteq> []" using s2 by simp
      qed
      have 4: "files ?w2 f = Some (old @ ?d)" by simp
      have m: "length (concat (stake k' (data_in ?w2))) + k' < length (concat (stake k ?s)) + k"
        using Suc s2 by simp
      from less.hyps [OF m 1 2 3 4] obtain ds where
        run: "recv_loop Data f ?w2
               = Some (Inr (), ?w2\<lparr>data_in := sdrop (Suc k') (data_in ?w2),
                                   files := (files ?w2)(f \<mapsto> (old @ ?d) @ concat ds),
                                   trace := trace ?w2 @ concat (map (\<lambda>d. [Recv Data, Write f d]) ds) @ [Recv Data]\<rparr>)"
        and c: "concat ds = concat (stake k' (data_in ?w2))"
        and l: "list_all (\<lambda>d. d \<noteq> [] \<and> length d \<le> 1024) ds"
        by blast
      have "recv_loop Data f w
             = Some (Inr (), w\<lparr>data_in := sdrop (Suc k) ?s,
                               files := (files w)(f \<mapsto> old @ concat (?d # ds)),
                               trace := trace w @ concat (map (\<lambda>d. [Recv Data, Write f d]) (?d # ds)) @ [Recv Data]\<rparr>)"
        using step run s2 Suc by simp
      moreover have "concat (?d # ds) = concat (stake k ?s)"
        using c s2 Suc full by simp
      moreover have "list_all (\<lambda>d. d \<noteq> [] \<and> length d \<le> 1024) (?d # ds)"
        using l d by simp
      ultimately show ?thesis by blast
    next
      case False
      then have s2: "data_in ?w2 = drop 1024 (shd ?s) ## stl ?s" by (simp add: leftover_def)
      have 1: "dataconn ?w2 = Open" using less.prems(1) by simp
      have 2: "data_in ?w2 !! k = []" using less.prems(2) Suc s2 by simp
      have 3: "\<forall>j<k. data_in ?w2 !! j \<noteq> []"
      proof (intro allI impI)
        fix j assume j: "j < k"
        show "data_in ?w2 !! j \<noteq> []"
        proof (cases j)
          case 0
          with False s2 show ?thesis by simp
        next
          case (Suc i)
          with j less.prems(3) have "?s !! Suc i \<noteq> []" by blast
          with Suc s2 show ?thesis by simp
        qed
      qed
      have 4: "files ?w2 f = Some (old @ ?d)" by simp
      have "length (drop 1024 (shd ?s)) < length (shd ?s)" using ne by simp
      then have m: "length (concat (stake k (data_in ?w2))) + k < length (concat (stake k ?s)) + k"
        using Suc s2 by simp
      from less.hyps [OF m 1 2 3 4] obtain ds where
        run: "recv_loop Data f ?w2
               = Some (Inr (), ?w2\<lparr>data_in := sdrop (Suc k) (data_in ?w2),
                                   files := (files ?w2)(f \<mapsto> (old @ ?d) @ concat ds),
                                   trace := trace ?w2 @ concat (map (\<lambda>d. [Recv Data, Write f d]) ds) @ [Recv Data]\<rparr>)"
        and c: "concat ds = concat (stake k (data_in ?w2))"
        and l: "list_all (\<lambda>d. d \<noteq> [] \<and> length d \<le> 1024) ds"
        by blast
      have "recv_loop Data f w
             = Some (Inr (), w\<lparr>data_in := sdrop (Suc k) ?s,
                               files := (files w)(f \<mapsto> old @ concat (?d # ds)),
                               trace := trace w @ concat (map (\<lambda>d. [Recv Data, Write f d]) (?d # ds)) @ [Recv Data]\<rparr>)"
        using step run s2 Suc by simp
      moreover have "concat (?d # ds) = concat (stake k ?s)"
        using c s2 Suc by simp
      moreover have "list_all (\<lambda>d. d \<noteq> [] \<and> length d \<le> 1024) (?d # ds)"
        using l d by simp
      ultimately show ?thesis by blast
    qed
  qed
qed

section \<open>GET\<close>

lemma lower_eq_n:
  assumes tbl: "\<forall>c. 128 \<le> c \<longrightarrow> tbl c \<noteq> [] \<and> tbl c \<noteq> [110]"
  shows "(lower tbl s = lit ''n'') = (s = lit ''n'' \<or> s = lit ''N'')"
proof -
  let ?g = "\<lambda>c. if 65 \<le> c \<and> c \<le> 90 then [c + 32] else if c < 128 then [c] else tbl c"
  have ne: "?g c \<noteq> []" for c using tbl by simp
  have one: "?g c = [110] \<longleftrightarrow> c = 110 \<or> c = 78" for c
    using tbl by (auto simp: not_less)
  have nil: "concat (map ?g cs) = [] \<longleftrightarrow> cs = []" for cs
    using ne by (cases cs) auto
  show ?thesis
  proof (cases s)
    case Nil
    then show ?thesis by (simp add: lower_def lit_def)
  next
    case (Cons c cs)
    have "lower tbl s = ?g c @ concat (map ?g cs)"
      using Cons by (simp add: lower_def)
    then have "lower tbl s = [110] \<longleftrightarrow> ?g c = [110] \<and> concat (map ?g cs) = []"
      using ne [of c] by (cases "?g c") (auto simp: Cons_eq_append_conv)
    also have "\<dots> \<longleftrightarrow> (c = 110 \<or> c = 78) \<and> cs = []"
      using one [of c] nil [of cs] by simp
    finally show ?thesis using Cons by (auto simp: lit_def)
  qed
qed

lemma getMsg_Inr_world:
  assumes "getMsg Control w = Some (Inr m, w1)"
  shows "w1 = w\<lparr>control_in := leftover MAX_LIMIT (control_in w), trace := trace w @ [Recv Control]\<rparr>"
  using getMsg_Inr [OF assms] by (simp add: set_incoming_def incoming_def)

lemma receiveData_get_status:
  assumes a: "3 < length (argv w)" "argv w ! 3 = lit ''-g''"
    and g: "getMsg Control w = Some (Inr status, w1)"
  shows "receiveData Control Data w =
       (if contains (lit ''ERROR'') status then
         seq (print (lit ''Message from server: '' @ status)) (\<lambda>_.
         seq (close Control) (\<lambda>_.
         close Data))
       else
         seq (sys_argv 4) (\<lambda>name.
         seq (isfile name) (\<lambda>exists.
         seq (if exists then
                seq (input (name @ lit '' already exists. Overwrite? N = no, anything else = yes'' @ [10])) (\<lambda>overwrite.
                seq (str_lower overwrite) (\<lambda>lowered.
                if lowered = lit ''n'' then seq (print (lit ''Transfer aborted.'')) (\<lambda>_. ret True)
                else ret False))
              else ret False) (\<lambda>aborted.
         if aborted then ret ()
         else
           seq (open_wb name) (\<lambda>_.
           seq (print (lit ''Transferring '' @ name @ lit ''.'')) (\<lambda>_.
           seq (recv_loop Data name) (\<lambda>_.
           print (lit ''Transfer complete.'')))))))) w1"
  by (simp add: receiveData_get [OF a] seq_Inr [of "getMsg Control", OF g])

lemma get_error:
  assumes a: "3 < length (argv w)" "argv w ! 3 = lit ''-g''"
    and g: "getMsg Control w = Some (Inr status, w1)"
    and e: "contains (lit ''ERROR'') status"
  shows "receiveData Control Data w
           = Some (Inr (), w\<lparr>control_in := leftover MAX_LIMIT (control_in w),
                             control := Closed, dataconn := Closed,
                             trace := trace w @ [Recv Control, Print (lit ''Message from server: '' @ status),
                                                 Close Control, Close Data]\<rparr>)"
  using e
  by (simp add: receiveData_get_status [OF a g] getMsg_Inr_world [OF g] seq_def prim_defs)

lemma get_aborts:
  assumes a: "4 < length (argv w)" "argv w ! 3 = lit ''-g''"
    and g: "getMsg Control w = Some (Inr status, w1)"
    and e: "\<not> contains (lit ''ERROR'') status"
    and f: "files w (argv w ! 4) = Some old"
    and i: "stdin w = ans # rest"
    and l: "lower (lower_tbl w) ans = lit ''n''"
  shows "receiveData Control Data w
           = Some (Inr (), w\<lparr>control_in := leftover MAX_LIMIT (control_in w), stdin := rest,
                             trace := trace w @ [Recv Control, Input (prompt (argv w ! 4)),
                                                 Print (lit ''Transfer aborted.'')]\<rparr>)"
proof -
  have a3: "3 < length (argv w)" using a(1) by simp
  show ?thesis
    using e f i l a(1)
    by (simp add: receiveData_get_status [OF a3 a(2) g] getMsg_Inr_world [OF g]
        seq_def prim_defs prompt_def)
qed

lemma get_proceeds:
  assumes a: "4 < length (argv w)" "argv w ! 3 = lit ''-g''"
    and g: "getMsg Control w = Some (Inr status, w1)"
    and e: "\<not> contains (lit ''ERROR'') status"
    and n: "files w (argv w ! 4) = None
            \<or> (\<exists>ans rest. stdin w = ans # rest \<and> lower (lower_tbl w) ans \<noteq> lit ''n'')"
    and "openable w (argv w ! 4)"
  shows "receiveData Control Data w
           = seq (recv_loop Data (argv w ! 4)) (\<lambda>_. print (lit ''Transfer complete.''))
               (w\<lparr>control_in := leftover MAX_LIMIT (control_in w),
                  stdin := (if files w (argv w ! 4) = None then stdin w else tl (stdin w)),
                  files := (files w)(argv w ! 4 \<mapsto> []),
                  trace := trace w @ Recv Control #
                    (if files w (argv w ! 4) = None then [] else [Input (prompt (argv w ! 4))])
                    @ [OpenW (argv w ! 4), Print (lit ''Transferring '' @ argv w ! 4 @ lit ''.'')]\<rparr>)"
proof -
  have a3: "3 < length (argv w)" using a(1) by simp
  show ?thesis
  proof (cases "files w (argv w ! 4)")
    case None
    then show ?thesis
      using e a(1) assms(6)
      by (simp add: receiveData_get_status [OF a3 a(2) g] getMsg_Inr_world [OF g]
          seq_def prim_defs)
  next
    case (Some old)
    with n obtain ans rest where "stdin w = ans # rest" "lower (lower_tbl w) ans \<noteq> lit ''n''"
      by auto
    with Some show ?thesis
      using e a(1) assms(6)
      by (simp add: receiveData_get_status [OF a3 a(2) g] getMsg_Inr_world [OF g]
          seq_def prim_defs prompt_def)
  qed
qed

lemma get_completes:
  assumes a: "4 < length (argv w)" "argv w ! 3 = lit ''-g''"
    and g: "getMsg Control w = Some (Inr status, w1)"
    and e: "\<not> contains (lit ''ERROR'') status"
    and n: "files w (argv w ! 4) = None
            \<or> (\<exists>ans rest. stdin w = ans # rest \<and> lower (lower_tbl w) ans \<noteq> lit ''n'')"
    and o: "openable w (argv w ! 4)"
    and d: "dataconn w = Open"
    and k: "data_in w !! k = []" "\<forall>j<k. data_in w !! j \<noteq> []"
  shows "\<exists>ds. receiveData Control Data w
           = Some (Inr (),
               w\<lparr>control_in := leftover MAX_LIMIT (control_in w),
                  stdin := (if files w (argv w ! 4) = None then stdin w else tl (stdin w)),
                  data_in := sdrop (Suc k) (data_in w),
                  files := (files w)(argv w ! 4 \<mapsto> concat ds),
                  trace := trace w @ Recv Control #
                    (if files w (argv w ! 4) = None then [] else [Input (prompt (argv w ! 4))])
                    @ [OpenW (argv w ! 4), Print (lit ''Transferring '' @ argv w ! 4 @ lit ''.'')]
                    @ concat (map (\<lambda>d. [Recv Data, Write (argv w ! 4) d]) ds)
                    @ [Recv Data, Print (lit ''Transfer complete.'')]\<rparr>)
         \<and> concat ds = concat (stake k (data_in w))
         \<and> list_all (\<lambda>d. d \<noteq> [] \<and> length d \<le> 1024) ds"
proof -
  let ?name = "argv w ! 4"
  let ?w2 = "w\<lparr>control_in := leftover MAX_LIMIT (control_in w),
                  stdin := (if files w ?name = None then stdin w else tl (stdin w)),
                  files := (files w)(?name \<mapsto> []),
                  trace := trace w @ Recv Control #
                    (if files w ?name = None then [] else [Input (prompt ?name)])
                    @ [OpenW ?name, Print (lit ''Transferring '' @ ?name @ lit ''.'')]\<rparr>"
  have p: "receiveData Control Data w
             = seq (recv_loop Data ?name) (\<lambda>_. print (lit ''Transfer complete.'')) ?w2"
    by (rule get_proceeds [OF a g e n o])
  have 1: "dataconn ?w2 = Open" using d by simp
  have 2: "data_in ?w2 !! k = []" using k(1) by simp
  have 3: "\<forall>j<k. data_in ?w2 !! j \<noteq> []" using k(2) by simp
  have 4: "files ?w2 ?name = Some []" by simp
  from recv_loop_run [OF 1 2 3 4] obtain ds where
    run: "recv_loop Data ?name ?w2
           = Some (Inr (), ?w2\<lparr>data_in := sdrop (Suc k) (data_in ?w2),
                               files := (files ?w2)(?name \<mapsto> [] @ concat ds),
                               trace := trace ?w2 @ concat (map (\<lambda>d. [Recv Data, Write ?name d]) ds) @ [Recv Data]\<rparr>)"
    and c: "concat ds = concat (stake k (data_in ?w2))"
    and l: "list_all (\<lambda>d. d \<noteq> [] \<and> length d \<le> 1024) ds"
    by blast
  have "receiveData Control Data w
           = Some (Inr (),
               w\<lparr>control_in := leftover MAX_LIMIT (control_in w),
                  stdin := (if files w ?name = None then stdin w else tl (stdin w)),
                  data_in := sdrop (Suc k) (data_in w),
                  files := (files w)(?name \<mapsto> concat ds),
                  trace := trace w @ Recv Control #
                    (if files w ?name = None then [] else [Input (prompt ?name)])
                    @ [OpenW ?name, Print (lit ''Transferring '' @ ?name @ lit ''.'')]
                    @ concat (map (\<lambda>d. [Recv Data, Write ?name d]) ds)
                    @ [Recv Data, Print (lit ''Transfer complete.'')]\<rparr>)"
    unfolding p by (simp add: seq_Inr [of "recv_loop Data ?name", OF run] print_def emit_def)
  moreover have "concat ds = concat (stake k (data_in w))" using c by simp
  ultimately show ?thesis using l by blast
qed

text \<open>
  C6. In a GET, \<open>receiveData\<close> first reads one message from the control connection, not
  from the data connection. If the message contains \<open>ERROR\<close>, it prints the message
  after \<open>Message from server:\<close>, closes the control and the data connection and
  returns: these are all its events, no file is created or changed, and nothing was read
  from the data connection.
\<close>

theorem get_deferred_error:
  assumes "3 < length (argv w)" and "argv w ! 3 = lit ''-g''"
    and "returned (getMsg Control w) = Some status"
    and "contains (lit ''ERROR'') status"
  shows "returned (receiveData Control Data w) = Some ()
         \<and> new_events w (world_after (receiveData Control Data w))
             = [Recv Control, Print (lit ''Message from server: '' @ status),
                Close Control, Close Data]
         \<and> control (world_after (receiveData Control Data w)) = Closed
         \<and> dataconn (world_after (receiveData Control Data w)) = Closed
         \<and> files (world_after (receiveData Control Data w)) = files w
         \<and> data_in (world_after (receiveData Control Data w)) = data_in w"
proof -
  from assms(3) obtain w1 where g: "getMsg Control w = Some (Inr status, w1)"
    by (auto dest: returned_Some)
  show ?thesis
    by (simp add: get_error [OF assms(1,2) g assms(4)] new_events_def)
qed

text \<open>C6 at a GET whose status reply reports a missing file.\<close>

theorem get_deferred_error_witness:
  "returned (receiveData Control Data (accepted missing_world)) = Some ()
   \<and> new_events (accepted missing_world) (world_after (receiveData Control Data (accepted missing_world)))
       = [Recv Control, Print (lit ''Message from server: ERROR: file not found''),
          Close Control, Close Data]
   \<and> control (world_after (receiveData Control Data (accepted missing_world))) = Closed
   \<and> dataconn (world_after (receiveData Control Data (accepted missing_world))) = Closed
   \<and> files (world_after (receiveData Control Data (accepted missing_world))) = Map.empty
   \<and> data_in (world_after (receiveData Control Data (accepted missing_world)))
       = ascii ''1,2'' ## (ascii '',3'' @ [10]) ## sconst []"
proof -
  have a: "3 < length (argv (accepted missing_world))"
    "argv (accepted missing_world) ! 3 = lit ''-g''"
    by (simp_all add: world_defs accepted_def)
  have g: "returned (getMsg Control (accepted missing_world)) = Some (lit ''ERROR: file not found'')"
    by (simp add: getMsg_eq leftover_def prim_defs world_defs accepted_def eval_defs)
  have e: "contains (lit ''ERROR'') (lit ''ERROR: file not found'')"
    by (simp add: lit_def)
  have m: "lit ''Message from server: '' @ lit ''ERROR: file not found''
             = lit ''Message from server: ERROR: file not found''"
    by (simp add: lit_def)
  have f: "files (accepted missing_world) = Map.empty"
    "data_in (accepted missing_world) = ascii ''1,2'' ## (ascii '',3'' @ [10]) ## sconst []"
    by (simp_all add: world_defs accepted_def)
  from get_deferred_error [OF a g e] m f show ?thesis by simp
qed

text \<open>
  C4. In a GET with no error in the status reply and no abort at the overwrite question
  (the file does not exist, or the answer does not lower to \<open>n\<close>), with a name that can
  be opened for writing and a data connection that delivers an empty read after \<open>k\<close>
  non-empty deliveries, \<open>receiveData\<close> returns, and the file named on the command line
  holds exactly the bytes of those \<open>k\<close> deliveries in order, no other file changed.
  After the file was opened, the loop alternates a \<open>recv\<close> from the data connection with
  a write of what it returned, each write non-empty and of at most 1024 bytes, the
  writes together being the bytes delivered; the empty read ends it, and the completion
  message is the last event.
\<close>

theorem get_writes_received_bytes:
  assumes "4 < length (argv w)" and "argv w ! 3 = lit ''-g''"
    and "returned (getMsg Control w) = Some status"
    and "\<not> contains (lit ''ERROR'') status"
    and "files w (argv w ! 4) = None
         \<or> (\<exists>ans rest. stdin w = ans # rest \<and> lower (lower_tbl w) ans \<noteq> lit ''n'')"
    and "openable w (argv w ! 4)"
    and "dataconn w = Open"
    and "data_in w !! k = []" and "\<forall>j<k. data_in w !! j \<noteq> []"
  shows "returned (receiveData Control Data w) = Some ()
         \<and> files (world_after (receiveData Control Data w))
             = (files w)(argv w ! 4 \<mapsto> concat (stake k (data_in w)))
         \<and> data_in (world_after (receiveData Control Data w)) = sdrop (Suc k) (data_in w)
         \<and> (\<exists>pre ds. new_events w (world_after (receiveData Control Data w))
                = pre @ [OpenW (argv w ! 4), Print (lit ''Transferring '' @ argv w ! 4 @ lit ''.'')]
                  @ concat (map (\<lambda>d. [Recv Data, Write (argv w ! 4) d]) ds)
                  @ [Recv Data, Print (lit ''Transfer complete.'')]
              \<and> Recv Data \<notin> set pre
              \<and> concat ds = concat (stake k (data_in w))
              \<and> list_all (\<lambda>d. d \<noteq> [] \<and> length d \<le> 1024) ds)"
proof -
  from assms(3) obtain w1 where g: "getMsg Control w = Some (Inr status, w1)"
    by (auto dest: returned_Some)
  let ?name = "argv w ! 4"
  let ?pre = "Recv Control # (if files w ?name = None then [] else [Input (prompt ?name)])"
  from get_completes [OF assms(1,2) g assms(4-9)] obtain ds where
    run: "receiveData Control Data w
           = Some (Inr (),
               w\<lparr>control_in := leftover MAX_LIMIT (control_in w),
                  stdin := (if files w ?name = None then stdin w else tl (stdin w)),
                  data_in := sdrop (Suc k) (data_in w),
                  files := (files w)(?name \<mapsto> concat ds),
                  trace := trace w @ Recv Control #
                    (if files w ?name = None then [] else [Input (prompt ?name)])
                    @ [OpenW ?name, Print (lit ''Transferring '' @ ?name @ lit ''.'')]
                    @ concat (map (\<lambda>d. [Recv Data, Write ?name d]) ds)
                    @ [Recv Data, Print (lit ''Transfer complete.'')]\<rparr>)"
    and c: "concat ds = concat (stake k (data_in w))"
    and l: "list_all (\<lambda>d. d \<noteq> [] \<and> length d \<le> 1024) ds"
    by blast
  have ev: "new_events w (world_after (receiveData Control Data w))
             = ?pre @ [OpenW ?name, Print (lit ''Transferring '' @ ?name @ lit ''.'')]
               @ concat (map (\<lambda>d. [Recv Data, Write ?name d]) ds)
               @ [Recv Data, Print (lit ''Transfer complete.'')]"
    by (simp add: run new_events_def)
  have pre: "Recv Data \<notin> set ?pre" by simp
  have "\<exists>pre ds. new_events w (world_after (receiveData Control Data w))
                = pre @ [OpenW ?name, Print (lit ''Transferring '' @ ?name @ lit ''.'')]
                  @ concat (map (\<lambda>d. [Recv Data, Write ?name d]) ds)
                  @ [Recv Data, Print (lit ''Transfer complete.'')]
              \<and> Recv Data \<notin> set pre
              \<and> concat ds = concat (stake k (data_in w))
              \<and> list_all (\<lambda>d. d \<noteq> [] \<and> length d \<le> 1024) ds"
    using ev pre c l by blast
  moreover have "returned (receiveData Control Data w) = Some ()" by (simp add: run)
  moreover have "files (world_after (receiveData Control Data w))
             = (files w)(?name \<mapsto> concat (stake k (data_in w)))" by (simp add: run c)
  moreover have "data_in (world_after (receiveData Control Data w)) = sdrop (Suc k) (data_in w)"
    by (simp add: run)
  ultimately show ?thesis by blast
qed

text \<open>
  C4 at the GET of \<open>report.csv\<close> with no local file of that name: the server streams
  \<open>1,2\<close> and \<open>,3\<close> with a newline, then closes; the file holds the six bytes.
\<close>

theorem get_writes_received_bytes_witness:
  "returned (receiveData Control Data (accepted get_world)) = Some ()
   \<and> files (world_after (receiveData Control Data (accepted get_world)))
       = [lit ''report.csv'' \<mapsto> ascii ''1,2,3'' @ [10]]
   \<and> data_in (world_after (receiveData Control Data (accepted get_world))) = sconst []"
proof -
  let ?w = "accepted get_world"
  have a: "4 < length (argv ?w)" "argv ?w ! 3 = lit ''-g''"
    by (simp_all add: world_defs accepted_def)
  have g: "returned (getMsg Control ?w) = Some (lit ''READY'')"
    by (simp add: getMsg_eq leftover_def prim_defs world_defs accepted_def eval_defs)
  have e: "\<not> contains (lit ''ERROR'') (lit ''READY'')"
    by (simp add: lit_def)
  have n: "argv ?w ! 4 = lit ''report.csv''"
    by (simp add: world_defs accepted_def)
  have f: "files ?w = Map.empty"
    by (simp add: world_defs accepted_def)
  then have f': "files ?w (argv ?w ! 4) = None
      \<or> (\<exists>ans rest. stdin ?w = ans # rest \<and> lower (lower_tbl ?w) ans \<noteq> lit ''n'')"
    by simp
  have o: "openable ?w (argv ?w ! 4)" "dataconn ?w = Open"
    by (simp_all add: world_defs accepted_def)
  have d: "data_in ?w = ascii ''1,2'' ## (ascii '',3'' @ [10]) ## sconst []"
    by (simp add: world_defs accepted_def)
  have k: "data_in ?w !! Suc (Suc 0) = []" "\<forall>j<Suc (Suc 0). data_in ?w !! j \<noteq> []"
    by (auto simp: d ascii_def less_Suc_eq)
  have c: "concat (stake (Suc (Suc 0)) (data_in ?w)) = ascii ''1,2,3'' @ [10]"
    by (simp add: d ascii_def)
  have s: "sdrop (Suc (Suc (Suc 0))) (data_in ?w) = sconst []"
    by (simp add: d)
  from get_writes_received_bytes [OF a g e f' o k] c n f s
  show ?thesis by simp
qed

text \<open>
  C5. In a GET with no error in the status reply, when the file named on the command
  line exists, \<open>receiveData\<close> asks the user. With the answer \<open>n\<close> or \<open>N\<close> it prints the
  abort notice and returns: the question and the notice are its only events after the
  status was read, no file is changed, and the data connection, open, has not been read.
  With any other answer, the empty one included, it goes on: when the name can be opened
  and the data connection delivers an empty read after \<open>k\<close> non-empty deliveries, the file
  holds what was received in place of its old content, and no abort notice is printed.
  \<open>n\<close> and \<open>N\<close> are the only answers that lower to \<open>n\<close> as long as Unicode's lower-case
  table maps no code point from 128 on to \<open>n\<close> or to nothing.
\<close>

theorem get_overwrite_prompt:
  assumes "4 < length (argv w)" and "argv w ! 3 = lit ''-g''"
    and "returned (getMsg Control w) = Some status"
    and "\<not> contains (lit ''ERROR'') status"
    and "files w (argv w ! 4) = Some old"
    and "stdin w = ans # rest"
    and "\<forall>c. 128 \<le> c \<longrightarrow> lower_tbl w c \<noteq> [] \<and> lower_tbl w c \<noteq> [110]"
  shows "(ans = lit ''n'' \<or> ans = lit ''N'' \<longrightarrow>
            returned (receiveData Control Data w) = Some ()
            \<and> new_events w (world_after (receiveData Control Data w))
                = [Recv Control, Input (prompt (argv w ! 4)), Print (lit ''Transfer aborted.'')]
            \<and> files (world_after (receiveData Control Data w)) = files w
            \<and> data_in (world_after (receiveData Control Data w)) = data_in w
            \<and> dataconn (world_after (receiveData Control Data w)) = dataconn w)
         \<and> (ans \<noteq> lit ''n'' \<and> ans \<noteq> lit ''N'' \<and> openable w (argv w ! 4) \<and> dataconn w = Open
              \<and> data_in w !! k = [] \<and> (\<forall>j<k. data_in w !! j \<noteq> []) \<longrightarrow>
            returned (receiveData Control Data w) = Some ()
            \<and> files (world_after (receiveData Control Data w))
                = (files w)(argv w ! 4 \<mapsto> concat (stake k (data_in w)))
            \<and> Input (prompt (argv w ! 4)) \<in> set (new_events w (world_after (receiveData Control Data w)))
            \<and> OpenW (argv w ! 4) \<in> set (new_events w (world_after (receiveData Control Data w)))
            \<and> Print (lit ''Transfer aborted.'')
                 \<notin> set (new_events w (world_after (receiveData Control Data w))))"
proof (intro conjI impI)
  from assms(3) obtain w1 where g: "getMsg Control w = Some (Inr status, w1)"
    by (auto dest: returned_Some)
  note low = lower_eq_n [OF assms(7), of ans]
  {
    assume "ans = lit ''n'' \<or> ans = lit ''N''"
    with low have l: "lower (lower_tbl w) ans = lit ''n''" by simp
    note run = get_aborts [OF assms(1,2) g assms(4,5,6) l]
    show "returned (receiveData Control Data w) = Some ()" by (simp add: run)
    show "new_events w (world_after (receiveData Control Data w))
            = [Recv Control, Input (prompt (argv w ! 4)), Print (lit ''Transfer aborted.'')]"
      by (simp add: run new_events_def)
    show "files (world_after (receiveData Control Data w)) = files w" by (simp add: run)
    show "data_in (world_after (receiveData Control Data w)) = data_in w" by (simp add: run)
    show "dataconn (world_after (receiveData Control Data w)) = dataconn w" by (simp add: run)
  }
  {
    let ?name = "argv w ! 4"
    assume h: "ans \<noteq> lit ''n'' \<and> ans \<noteq> lit ''N'' \<and> openable w ?name \<and> dataconn w = Open
              \<and> data_in w !! k = [] \<and> (\<forall>j<k. data_in w !! j \<noteq> [])"
    with low have l: "lower (lower_tbl w) ans \<noteq> lit ''n''" by simp
    with assms(6) have n: "files w ?name = None
        \<or> (\<exists>ans rest. stdin w = ans # rest \<and> lower (lower_tbl w) ans \<noteq> lit ''n'')" by blast
    from h have o: "openable w ?name" and d: "dataconn w = Open"
      and k: "data_in w !! k = []" "\<forall>j<k. data_in w !! j \<noteq> []" by simp_all
    from get_completes [OF assms(1,2) g assms(4) n o d k] assms(5) obtain ds where
      run: "receiveData Control Data w
           = Some (Inr (),
               w\<lparr>control_in := leftover MAX_LIMIT (control_in w),
                  stdin := tl (stdin w),
                  data_in := sdrop (Suc k) (data_in w),
                  files := (files w)(?name \<mapsto> concat ds),
                  trace := trace w @ Recv Control # Input (prompt ?name)
                    # [OpenW ?name, Print (lit ''Transferring '' @ ?name @ lit ''.'')]
                    @ concat (map (\<lambda>d. [Recv Data, Write ?name d]) ds)
                    @ [Recv Data, Print (lit ''Transfer complete.'')]\<rparr>)"
      and c: "concat ds = concat (stake k (data_in w))"
      by auto
    have ev: "new_events w (world_after (receiveData Control Data w))
            = Recv Control # Input (prompt ?name)
              # [OpenW ?name, Print (lit ''Transferring '' @ ?name @ lit ''.'')]
              @ concat (map (\<lambda>d. [Recv Data, Write ?name d]) ds)
              @ [Recv Data, Print (lit ''Transfer complete.'')]"
      by (simp add: run new_events_def)
    show "returned (receiveData Control Data w) = Some ()" by (simp add: run)
    show "files (world_after (receiveData Control Data w))
            = (files w)(?name \<mapsto> concat (stake k (data_in w)))" by (simp add: run c)
    show "Input (prompt ?name) \<in> set (new_events w (world_after (receiveData Control Data w)))"
      by (simp add: ev)
    show "OpenW ?name \<in> set (new_events w (world_after (receiveData Control Data w)))"
      by (simp add: ev)
    show "Print (lit ''Transfer aborted.'')
            \<notin> set (new_events w (world_after (receiveData Control Data w)))"
      by (auto simp: ev lit_def)
  }
qed

text \<open>
  C5 at the GET of \<open>report.csv\<close> when the file exists: with the answer \<open>n\<close> the file
  keeps its content and the data connection is not read; with the empty answer the
  transfer goes on and the file is replaced.
\<close>

theorem get_overwrite_prompt_witness:
  "returned (receiveData Control Data (accepted decline_world)) = Some ()
   \<and> new_events (accepted decline_world) (world_after (receiveData Control Data (accepted decline_world)))
       = [Recv Control, Input (prompt (lit ''report.csv'')), Print (lit ''Transfer aborted.'')]
   \<and> files (world_after (receiveData Control Data (accepted decline_world)))
       = [lit ''report.csv'' \<mapsto> ascii ''old'']
   \<and> data_in (world_after (receiveData Control Data (accepted decline_world)))
       = ascii ''1,2'' ## (ascii '',3'' @ [10]) ## sconst []
   \<and> dataconn (world_after (receiveData Control Data (accepted decline_world))) = Open
   \<and> returned (receiveData Control Data (accepted overwrite_world)) = Some ()
   \<and> files (world_after (receiveData Control Data (accepted overwrite_world)))
       = [lit ''report.csv'' \<mapsto> []]
   \<and> Print (lit ''Transfer aborted.'')
        \<notin> set (new_events (accepted overwrite_world)
              (world_after (receiveData Control Data (accepted overwrite_world))))"
proof -
  let ?w = "accepted decline_world"
  let ?v = "accepted overwrite_world"
  have e: "\<not> contains (lit ''ERROR'') (lit ''READY'')"
    by (simp add: lit_def)
  have aw: "4 < length (argv ?w)" "argv ?w ! 3 = lit ''-g''"
    by (simp_all add: world_defs accepted_def)
  have gw: "returned (getMsg Control ?w) = Some (lit ''READY'')"
    by (simp add: getMsg_eq leftover_def prim_defs world_defs accepted_def eval_defs)
  have nw: "argv ?w ! 4 = lit ''report.csv''"
    by (simp add: world_defs accepted_def)
  have fw: "files ?w = [lit ''report.csv'' \<mapsto> ascii ''old'']"
    "stdin ?w = lit ''n'' # []" "dataconn ?w = Open"
    "data_in ?w = ascii ''1,2'' ## (ascii '',3'' @ [10]) ## sconst []"
    by (simp_all add: world_defs accepted_def)
  have fw': "files ?w (argv ?w ! 4) = Some (ascii ''old'')"
    by (simp add: fw nw)
  have tw: "\<forall>c. 128 \<le> c \<longrightarrow> lower_tbl ?w c \<noteq> [] \<and> lower_tbl ?w c \<noteq> [110]"
    by (simp add: world_defs accepted_def)
  have av: "4 < length (argv ?v)" "argv ?v ! 3 = lit ''-g''"
    by (simp_all add: world_defs accepted_def)
  have gv: "returned (getMsg Control ?v) = Some (lit ''READY'')"
    by (simp add: getMsg_eq leftover_def prim_defs world_defs accepted_def eval_defs)
  have nv: "argv ?v ! 4 = lit ''report.csv''"
    by (simp add: world_defs accepted_def)
  have fv: "files ?v = [lit ''report.csv'' \<mapsto> ascii ''old'']"
    "stdin ?v = [] # []" "dataconn ?v = Open" "data_in ?v = sconst []"
    "openable ?v (lit ''report.csv'')"
    by (simp_all add: world_defs accepted_def)
  have fv': "files ?v (argv ?v ! 4) = Some (ascii ''old'')"
    by (simp add: fv nv)
  have tv: "\<forall>c. 128 \<le> c \<longrightarrow> lower_tbl ?v c \<noteq> [] \<and> lower_tbl ?v c \<noteq> [110]"
    by (simp add: world_defs accepted_def)
  have ne: "[] \<noteq> lit ''n''" "[] \<noteq> lit ''N''"
    by (simp_all add: lit_def)
  from get_overwrite_prompt [OF aw gw e fw' fw(2) tw, of 0]
  have 1: "returned (receiveData Control Data ?w) = Some ()
      \<and> new_events ?w (world_after (receiveData Control Data ?w))
          = [Recv Control, Input (prompt (lit ''report.csv'')), Print (lit ''Transfer aborted.'')]
      \<and> files (world_after (receiveData Control Data ?w)) = [lit ''report.csv'' \<mapsto> ascii ''old'']
      \<and> data_in (world_after (receiveData Control Data ?w))
          = ascii ''1,2'' ## (ascii '',3'' @ [10]) ## sconst []
      \<and> dataconn (world_after (receiveData Control Data ?w)) = Open"
    by (simp add: nw fw)
  from get_overwrite_prompt [OF av gv e fv' fv(2) tv, of 0] ne
  have 2: "returned (receiveData Control Data ?v) = Some ()
      \<and> files (world_after (receiveData Control Data ?v)) = [lit ''report.csv'' \<mapsto> []]
      \<and> Print (lit ''Transfer aborted.'')
           \<notin> set (new_events ?v (world_after (receiveData Control Data ?v)))"
    by (simp add: nv fv)
  from 1 2 show ?thesis by simp
qed

text \<open>
  C10. In a GET that passes the status check and the overwrite question, with a name that
  can be opened for writing, \<open>receiveData\<close> runs the transfer loop from a world in which
  the file is already open and empty, whatever it held, and nothing has been read from
  the data connection: the deliveries are all still to come and no \<open>recv\<close> on the data
  connection is among the events so far. So when the first read from the open data
  connection is empty, \<open>receiveData\<close> returns and the file is left empty.
\<close>

theorem get_truncates_before_reading:
  assumes "4 < length (argv w)" and "argv w ! 3 = lit ''-g''"
    and "returned (getMsg Control w) = Some status"
    and "\<not> contains (lit ''ERROR'') status"
    and "files w (argv w ! 4) = None
         \<or> (\<exists>ans rest. stdin w = ans # rest \<and> lower (lower_tbl w) ans \<noteq> lit ''n'')"
    and "openable w (argv w ! 4)"
  shows "(\<exists>w2. receiveData Control Data w
                 = seq (recv_loop Data (argv w ! 4)) (\<lambda>_. print (lit ''Transfer complete.'')) w2
            \<and> files w2 = (files w)(argv w ! 4 \<mapsto> [])
            \<and> data_in w2 = data_in w
            \<and> OpenW (argv w ! 4) \<in> set (new_events w w2)
            \<and> Recv Data \<notin> set (new_events w w2))
         \<and> (dataconn w = Open \<and> shd (data_in w) = [] \<longrightarrow>
               returned (receiveData Control Data w) = Some ()
               \<and> files (world_after (receiveData Control Data w)) = (files w)(argv w ! 4 \<mapsto> []))"
proof (intro conjI impI)
  from assms(3) obtain w1 where g: "getMsg Control w = Some (Inr status, w1)"
    by (auto dest: returned_Some)
  let ?name = "argv w ! 4"
  let ?w2 = "w\<lparr>control_in := leftover MAX_LIMIT (control_in w),
                  stdin := (if files w ?name = None then stdin w else tl (stdin w)),
                  files := (files w)(?name \<mapsto> []),
                  trace := trace w @ Recv Control #
                    (if files w ?name = None then [] else [Input (prompt ?name)])
                    @ [OpenW ?name, Print (lit ''Transferring '' @ ?name @ lit ''.'')]\<rparr>"
  have p: "receiveData Control Data w
             = seq (recv_loop Data ?name) (\<lambda>_. print (lit ''Transfer complete.'')) ?w2"
    by (rule get_proceeds [OF assms(1,2) g assms(4,5,6)])
  have "files ?w2 = (files w)(?name \<mapsto> [])" "data_in ?w2 = data_in w" by simp_all
  moreover have "OpenW ?name \<in> set (new_events w ?w2)" "Recv Data \<notin> set (new_events w ?w2)"
    by (simp_all add: new_events_def)
  ultimately show "\<exists>w2. receiveData Control Data w
                 = seq (recv_loop Data ?name) (\<lambda>_. print (lit ''Transfer complete.'')) w2
            \<and> files w2 = (files w)(?name \<mapsto> [])
            \<and> data_in w2 = data_in w
            \<and> OpenW ?name \<in> set (new_events w w2)
            \<and> Recv Data \<notin> set (new_events w w2)"
    using p by blast
  {
    assume h: "dataconn w = Open \<and> shd (data_in w) = []"
    then have d: "dataconn w = Open" and k: "data_in w !! 0 = []" "\<forall>j<0. data_in w !! j \<noteq> []"
      by simp_all
    from get_completes [OF assms(1,2) g assms(4,5,6) d k] obtain ds where
      run: "receiveData Control Data w
           = Some (Inr (),
               w\<lparr>control_in := leftover MAX_LIMIT (control_in w),
                  stdin := (if files w ?name = None then stdin w else tl (stdin w)),
                  data_in := sdrop (Suc 0) (data_in w),
                  files := (files w)(?name \<mapsto> concat ds),
                  trace := trace w @ Recv Control #
                    (if files w ?name = None then [] else [Input (prompt ?name)])
                    @ [OpenW ?name, Print (lit ''Transferring '' @ ?name @ lit ''.'')]
                    @ concat (map (\<lambda>d. [Recv Data, Write ?name d]) ds)
                    @ [Recv Data, Print (lit ''Transfer complete.'')]\<rparr>)"
      and c: "concat ds = concat (stake 0 (data_in w))"
      by blast
    from c have c0: "concat ds = []" by simp
    show "returned (receiveData Control Data w) = Some ()" by (simp add: run)
    show "files (world_after (receiveData Control Data w)) = (files w)(?name \<mapsto> [])"
      by (simp add: run c0)
  }
qed

text \<open>
  C10 at the GET of \<open>report.csv\<close> when the file exists with content, the user presses
  return and the server closes the data connection at once: the file is left empty.
\<close>

theorem get_truncates_before_reading_witness:
  "(\<exists>w2. receiveData Control Data (accepted overwrite_world)
            = seq (recv_loop Data (lit ''report.csv'')) (\<lambda>_. print (lit ''Transfer complete.'')) w2
       \<and> files w2 = [lit ''report.csv'' \<mapsto> []]
       \<and> data_in w2 = sconst []
       \<and> OpenW (lit ''report.csv'') \<in> set (new_events (accepted overwrite_world) w2)
       \<and> Recv Data \<notin> set (new_events (accepted overwrite_world) w2))
   \<and> files (accepted overwrite_world) = [lit ''report.csv'' \<mapsto> ascii ''old'']
   \<and> returned (receiveData Control Data (accepted overwrite_world)) = Some ()
   \<and> files (world_after (receiveData Control Data (accepted overwrite_world)))
       = [lit ''report.csv'' \<mapsto> []]"
proof -
  let ?v = "accepted overwrite_world"
  have e: "\<not> contains (lit ''ERROR'') (lit ''READY'')"
    by (simp add: lit_def)
  have av: "4 < length (argv ?v)" "argv ?v ! 3 = lit ''-g''"
    by (simp_all add: world_defs accepted_def)
  have gv: "returned (getMsg Control ?v) = Some (lit ''READY'')"
    by (simp add: getMsg_eq leftover_def prim_defs world_defs accepted_def eval_defs)
  have nv: "argv ?v ! 4 = lit ''report.csv''"
    by (simp add: world_defs accepted_def)
  have fv: "files ?v = [lit ''report.csv'' \<mapsto> ascii ''old'']"
    "dataconn ?v = Open" "data_in ?v = sconst []"
    by (simp_all add: world_defs accepted_def)
  have sv: "stdin ?v = [] # [] \<and> lower (lower_tbl ?v) [] \<noteq> lit ''n''"
    by (simp add: world_defs accepted_def lower_def lit_def)
  then have n: "files ?v (argv ?v ! 4) = None
      \<or> (\<exists>ans rest. stdin ?v = ans # rest \<and> lower (lower_tbl ?v) ans \<noteq> lit ''n'')"
    by blast
  have o: "openable ?v (argv ?v ! 4)"
    by (simp add: world_defs accepted_def)
  from get_truncates_before_reading [OF av gv e n o] fv
  show ?thesis by (simp add: nv)
qed

section \<open>Whole sessions\<close>

lemma encode_Inr: "encode s w = Some (Inr bs, w') \<Longrightarrow> w' = w \<and> encode_utf8 s = Some bs"
  by (auto simp: encode_def ret_def raise_def split: option.splits)

lemma makeRequest_Inr: "makeRequest dp w = Some (Inr s, w') \<Longrightarrow> returned (makeRequest dp w) = Some s"
  by simp

lemma startup_sent:
  assumes "startup w = Some (Inr (port, dp, confirm), w1)"
  shows "\<exists>p s bs. trace w1 = trace w @ [Bind dp, Listen,
             Print (lit ''Listening on data port '' @ str_of_int dp),
             Connect (argv w ! 1) p, Sleep, Send bs, Recv Control]
           \<and> py_int w (argv w ! 2) = Some p
           \<and> returned (makeRequest dp w) = Some s \<and> encode_utf8 s = Some bs"
  using assms
  apply (simp only: startup_def)
  apply (elim seq_InrE)
  apply (frule makeRequest_Inr)
  apply (drule syntaxCheck_Inr getDataPort_Inr makeRequest_pure socketStart_Inr
      initiateContact_Inr getMsg_Inr encode_Inr)+
  apply (auto simp: prim_defs split: if_splits option.splits)
  done

text \<open>
  The listener is bound to the data port and listening before the control connection is
  made and the request is sent, and what is sent is the UTF-8 encoding of the string
  \<open>makeRequest\<close> built for that port: whenever \<open>startup\<close> returns, its events are, in this
  order, bind, listen, the message about the data port, connect to the host and port of
  the command line, the pause, the send, and the read of the first reply.
\<close>

theorem listening_before_request:
  assumes "returned (startup w) = Some (port, dataPort, confirm)"
  shows "\<exists>p s bs. new_events w (world_after (startup w))
             = [Bind dataPort, Listen,
                Print (lit ''Listening on data port '' @ str_of_int dataPort),
                Connect (argv w ! 1) p, Sleep, Send bs, Recv Control]
           \<and> py_int w (argv w ! 2) = Some p
           \<and> returned (makeRequest dataPort w) = Some s \<and> encode_utf8 s = Some bs"
proof -
  from assms obtain w1 where s: "startup w = Some (Inr (port, dataPort, confirm), w1)"
    by (auto dest: returned_Some)
  from startup_sent [OF s] s show ?thesis by (auto simp: new_events_def)
qed

theorem listening_before_request_witness:
  "\<exists>p s bs. new_events list_world (world_after (startup list_world))
       = [Bind 50000, Listen, Print (lit ''Listening on data port 50000''),
          Connect (lit ''localhost'') p, Sleep, Send bs, Recv Control]
     \<and> py_int list_world (lit ''30020'') = Some p
     \<and> returned (makeRequest 50000 list_world) = Some s \<and> encode_utf8 s = Some bs"
proof -
  have s: "returned (startup list_world) = Some (lit ''30020'', 50000, lit ''OK'')"
    by (simp add: run_defs prim_defs world_defs eval_defs)
  have a: "argv list_world ! 1 = lit ''localhost''" "argv list_world ! 2 = lit ''30020''"
    by (simp_all add: world_defs)
  have l: "lit ''Listening on data port '' @ str_of_int 50000 = lit ''Listening on data port 50000''"
    by (simp add: eval_defs)
  from listening_before_request [OF s] a l show ?thesis by simp
qed

text \<open>
  For the command \<open>-l\<close>, \<open>receiveData\<close> reads one message from the data connection and
  prints \<open>Directory contents:\<close> and then the message; it reads nothing more, from either
  connection, and changes no file.
\<close>

theorem list_prints_listing:
  assumes "3 < length (argv w)" and "argv w ! 3 = lit ''-l''"
    and "returned (getMsg Data w) = Some listing"
  shows "returned (receiveData Control Data w) = Some ()
         \<and> new_events w (world_after (receiveData Control Data w))
             = [Recv Data, Print (lit ''Directory contents:''), Print listing]
         \<and> files (world_after (receiveData Control Data w)) = files w
         \<and> control_in (world_after (receiveData Control Data w)) = control_in w"
proof -
  from assms(3) obtain w1 where g: "getMsg Data w = Some (Inr listing, w1)"
    by (auto dest: returned_Some)
  from getMsg_Inr [OF g]
  have w1: "w1 = w\<lparr>data_in := leftover MAX_LIMIT (data_in w), trace := trace w @ [Recv Data]\<rparr>"
    by (simp add: set_incoming_def incoming_def)
  have a: "sys_argv 3 w = Some (Inr (lit ''-l''), w)"
    using assms(1,2) by (simp add: sys_argv_def getitem_def ret_def)
  have "receiveData Control Data w
          = seq (print (lit ''Directory contents:'')) (\<lambda>_. print listing) w1"
    by (simp add: receiveData_def seq_Inr [of "sys_argv 3", OF a] seq_Inr [of "getMsg Data", OF g])
  then have "receiveData Control Data w
          = Some (Inr (), w\<lparr>data_in := leftover MAX_LIMIT (data_in w),
                            trace := trace w @ [Recv Data, Print (lit ''Directory contents:''), Print listing]\<rparr>)"
    by (simp add: w1 seq_def print_def emit_def)
  then show ?thesis by (simp add: new_events_def)
qed

theorem list_prints_listing_witness:
  "returned (receiveData Control Data (accepted list_world)) = Some ()
   \<and> new_events (accepted list_world) (world_after (receiveData Control Data (accepted list_world)))
       = [Recv Data, Print (lit ''Directory contents:''), Print (lit ''a.txt'' @ [10] @ lit ''b.txt'')]"
proof -
  have a: "3 < length (argv (accepted list_world))" "argv (accepted list_world) ! 3 = lit ''-l''"
    by (simp_all add: world_defs accepted_def)
  have g: "returned (getMsg Data (accepted list_world)) = Some (lit ''a.txt'' @ [10] @ lit ''b.txt'')"
    by (simp add: getMsg_eq leftover_def prim_defs world_defs accepted_def eval_defs)
  from list_prints_listing [OF a g] show ?thesis by simp
qed

lemma main_ack_run:
  assumes s: "startup w = Some (Inr (port, dataPort, confirm), w1)"
    and e: "\<not> contains (lit ''ERROR:'') confirm"
    and c: "connects_back w"
  shows "main w =
       seq (receiveData Control Data) (\<lambda>_.
       seq (close Control) (\<lambda>_.
       seq (close Listener) (\<lambda>_.
       seq (close Data) (\<lambda>_.
       seq (print (lit ''** Operations complete. Closing connections. **'')) (\<lambda>_.
       sys_exit 0)))))
         (w1\<lparr>dataconn := Open,
             trace := trace w1 @ [Print (lit ''Connected to ftserver on control port '' @ port), Accept,
                                  Print (lit ''ftserver connected on data port '' @ str_of_int dataPort),
                                  Sleep]\<rparr>)"
proof -
  from startup_Inr [OF s] c have "listener w1 = Open" "connects_back w1" by simp_all
  then show ?thesis
    using e by (simp add: main_after_startup [OF s] seq_def print_def emit_def accept_def sleep_def)
qed

lemma getMsg_returned_cong:
  assumes "state_of c v = state_of c w" and "incoming c v = incoming c w"
  shows "returned (getMsg c v) = returned (getMsg c w)"
  using assms by (simp add: getMsg_eq split: option.splits)

text \<open>
  A whole GET session. When \<open>startup\<close> returns with a first reply that has no \<open>ERROR:\<close>,
  the server connects back, the status reply read next has no \<open>ERROR\<close>, the overwrite
  question does not abort, the name can be opened and the data connection delivers an
  empty read after \<open>k\<close> non-empty deliveries, the program exits with status 0, the file
  named on the command line holds the bytes delivered and no other file changed, the
  three sockets are closed, and the closing message is the last event.
\<close>

theorem get_session:
  assumes "returned (startup w) = Some (port, dataPort, confirm)"
    and "\<not> contains (lit ''ERROR:'') confirm"
    and "connects_back w"
    and "argv w ! 3 = lit ''-g''"
    and "returned (getMsg Control (world_after (startup w))) = Some status"
    and "\<not> contains (lit ''ERROR'') status"
    and "files w (argv w ! 4) = None
         \<or> (\<exists>ans rest. stdin w = ans # rest \<and> lower (lower_tbl w) ans \<noteq> lit ''n'')"
    and "openable w (argv w ! 4)"
    and "data_in w !! k = []" and "\<forall>j<k. data_in w !! j \<noteq> []"
  shows "raised (main w) = Some (SystemExit 0)
         \<and> files (world_after (main w)) = (files w)(argv w ! 4 \<mapsto> concat (stake k (data_in w)))
         \<and> listener (world_after (main w)) = Closed
         \<and> control (world_after (main w)) = Closed
         \<and> dataconn (world_after (main w)) = Closed
         \<and> last (trace (world_after (main w)))
             = Print (lit ''** Operations complete. Closing connections. **'')"
proof -
  from assms(1) obtain w1 where s: "startup w = Some (Inr (port, dataPort, confirm), w1)"
    by (auto dest: returned_Some)
  note f = startup_Inr [OF s]
  define w4 where "w4 = w1\<lparr>dataconn := Open,
             trace := trace w1 @ [Print (lit ''Connected to ftserver on control port '' @ port), Accept,
                                  Print (lit ''ftserver connected on data port '' @ str_of_int dataPort),
                                  Sleep]\<rparr>"
  have m: "main w =
       seq (receiveData Control Data) (\<lambda>_.
       seq (close Control) (\<lambda>_.
       seq (close Listener) (\<lambda>_.
       seq (close Data) (\<lambda>_.
       seq (print (lit ''** Operations complete. Closing connections. **'')) (\<lambda>_.
       sys_exit 0))))) w4"
    unfolding w4_def by (rule main_ack_run [OF s assms(2,3)])
  have same: "argv w4 = argv w" "files w4 = files w" "stdin w4 = stdin w"
    "lower_tbl w4 = lower_tbl w" "openable w4 = openable w" "data_in w4 = data_in w"
    "dataconn w4 = Open"
    using f by (simp_all add: w4_def)
  have a: "4 < length (argv w4)" "argv w4 ! 3 = lit ''-g''"
    using f assms(4) same by simp_all
  have "returned (getMsg Control w4) = returned (getMsg Control w1)"
    by (rule getMsg_returned_cong) (simp_all add: w4_def state_of_def incoming_def)
  with assms(5) s have "returned (getMsg Control w4) = Some status" by simp
  then obtain w5 where g: "getMsg Control w4 = Some (Inr status, w5)"
    by (auto dest: returned_Some)
  have n: "files w4 (argv w4 ! 4) = None
         \<or> (\<exists>ans rest. stdin w4 = ans # rest \<and> lower (lower_tbl w4) ans \<noteq> lit ''n'')"
    using assms(7) same by simp
  have o: "openable w4 (argv w4 ! 4)" using assms(8) same by simp
  have k: "data_in w4 !! k = []" "\<forall>j<k. data_in w4 !! j \<noteq> []"
    using assms(9,10) same by simp_all
  from get_completes [OF a g assms(6) n o same(7) k] obtain w6 where
    run: "receiveData Control Data w4 = Some (Inr (), w6)"
    and fl: "files w6 = (files w4)(argv w4 ! 4 \<mapsto> concat (stake k (data_in w4)))"
    by auto
  have "main w = Some (Inl (SystemExit 0),
          w6\<lparr>control := Closed, listener := Closed, dataconn := Closed,
             trace := trace w6 @ [Close Control, Close Listener, Close Data,
                       Print (lit ''** Operations complete. Closing connections. **'')]\<rparr>)"
    unfolding m
    by (simp add: seq_Inr [of "receiveData Control Data", OF run])
       (simp add: seq_def prim_defs)
  then show ?thesis using fl same by simp
qed

text \<open>
  The GET scenario of the specification: \<open>report.csv\<close> does not exist locally, the
  server acknowledges, connects back and streams \<open>1,2,3\<close> and a newline.
\<close>

theorem get_session_witness:
  "raised (main get_world) = Some (SystemExit 0)
   \<and> files (world_after (main get_world)) = [lit ''report.csv'' \<mapsto> ascii ''1,2,3'' @ [10]]
   \<and> listener (world_after (main get_world)) = Closed
   \<and> control (world_after (main get_world)) = Closed
   \<and> dataconn (world_after (main get_world)) = Closed"
proof -
  let ?w = "get_world"
  have rs: "returned (startup ?w) = Some (lit ''30020'', 50000, lit ''OK'')"
    by (simp add: run_defs prim_defs world_defs eval_defs)
  have e: "\<not> contains (lit ''ERROR:'') (lit ''OK'')" "\<not> contains (lit ''ERROR'') (lit ''READY'')"
    by (simp_all add: lit_def)
  have c: "connects_back ?w" "argv ?w ! 3 = lit ''-g''" "openable ?w (argv ?w ! 4)"
    by (simp_all add: world_defs)
  have g: "returned (getMsg Control (world_after (startup ?w))) = Some (lit ''READY'')"
    by (simp add: run_defs prim_defs world_defs eval_defs)
  have f: "files ?w = Map.empty" by (simp add: world_defs)
  then have n: "files ?w (argv ?w ! 4) = None
      \<or> (\<exists>ans rest. stdin ?w = ans # rest \<and> lower (lower_tbl ?w) ans \<noteq> lit ''n'')"
    by simp
  have d: "data_in ?w = ascii ''1,2'' ## (ascii '',3'' @ [10]) ## sconst []"
    by (simp add: world_defs)
  have k: "data_in ?w !! Suc (Suc 0) = []" "\<forall>j<Suc (Suc 0). data_in ?w !! j \<noteq> []"
    by (auto simp: d ascii_def less_Suc_eq)
  have cc: "concat (stake (Suc (Suc 0)) (data_in ?w)) = ascii ''1,2,3'' @ [10]"
    by (simp add: d ascii_def)
  have nm: "argv ?w ! 4 = lit ''report.csv''" by (simp add: world_defs)
  from get_session [OF rs e(1) c(1,2) g e(2) n c(3) k] cc nm f
  show ?thesis by simp
qed

end
